theory Spec2Isabelle
  imports Main
begin

section \<open>Values, exceptions, statistics and the log\<close>

text \<open>
  Python exceptions are values. Every function of the source that can raise returns a pair
  of an outcome (\<open>Inl\<close> the exception, \<open>Inr\<close> the returned value) and the state it leaves
  behind: the counters and the table are mutated in place, so what was done before a raise
  stays done.
\<close>

datatype exn =
    AttributeError string
  | KeyError string
  | TypeError string
  | ValueError string
  | FileNotFoundError string
  | IMAPError string
  | OSError string
  | OtherError string

text \<open>
  The values an analysis result or a cell can hold: JSON scalars, and the missing value
  NaN that pandas keeps in a cell. Other floating point numbers, lists and objects are
  left out.
\<close>

datatype jval = JNull | JBool bool | JInt int | JStr string | JNaN

text \<open>
  Python's \<open>!=\<close> on these values: \<open>bool\<close> is a subclass of \<open>int\<close>, so \<open>True == 1\<close>;
  NaN differs from everything, itself included.
\<close>

fun py_ne :: "jval \<Rightarrow> jval \<Rightarrow> bool" where
  "py_ne JNull JNull = False"
| "py_ne (JBool a) (JBool b) = (a \<noteq> b)"
| "py_ne (JBool a) (JInt i) = ((if a then 1 else 0) \<noteq> i)"
| "py_ne (JInt i) (JBool a) = (i \<noteq> (if a then 1 else 0))"
| "py_ne (JInt i) (JInt j) = (i \<noteq> j)"
| "py_ne (JStr a) (JStr b) = (a \<noteq> b)"
| "py_ne _ _ = True"

text \<open>
  What the program takes from Python and pandas and the source does not say. A string is
  the list of the bytes of its UTF-8 encoding, and the two case foldings are Unicode
  tables: \<open>str_lower\<close> is \<open>str.lower()\<close> and \<open>series_lower\<close> is what \<open>Series.str.lower()\<close>
  does to one string cell. \<open>at_store\<close> is the write \<open>df.at[index, col] = value\<close>: the
  value the column then holds (a column of strings keeps \<open>None\<close> as NaN), or the exception
  of a column that refuses the value (a column of strings refuses a number).
\<close>

record library =
  str_lower :: "string \<Rightarrow> string"
  series_lower :: "string \<Rightarrow> string"
  at_store :: "string \<Rightarrow> jval \<Rightarrow> exn + jval"

text \<open>\<open>class ProcessingStats\<close>: three counters, all zero at construction.\<close>

record stats =
  processed_emails :: int
  updated_rows :: int
  errors :: int

datatype log_level = INFO | WARNING | ERROR | CRITICAL

text \<open>The messages of the logger named \<open>main\<close>, with the values their f-strings format.\<close>

datatype log_msg =
    NoMatchingRow string
  | UpdatedRow nat string jval jval
  | UpdateFailed string exn
  | ExcelSaved
  | SaveFailed exn
  | DeletedOldBackup string
  | CleanupFailed exn
  | NoSentEmails
  | NoRepliesFound
  | FetchFailed string
  | Fetched nat
  | FetchError exn
  | ParseFailed string exn
  | BodyFailed exn
  | StartProcessing
  | ProcessingAsUser
  | LoadedRows nat
  | LoadFailed exn
  | AnalysisFailed jval
  | ProcessingError exn
  | Completed
  | CriticalError exn
  | UnexpectedError exn

section \<open>The table\<close>

text \<open>
  The \<open>DataFrame\<close> that \<open>load_data\<close> reads: a header and rows of cells, labelled
  \<open>0, 1, ...\<close> in file order.
\<close>

record dataframe =
  df_columns :: "string list"
  df_rows :: "jval list list"

text \<open>
  The program state: the shared \<open>ProcessingStats\<close> object, the log, the table held by
  \<open>ExcelManager.data\<close> (\<open>None\<close> before \<open>load_data\<close>), the table in the file on disk, the
  number of times \<open>save_data\<close> was entered, and the message ids flagged read on the server.
\<close>

record state = stats +
  log :: "(log_level \<times> log_msg) list"
  data :: "dataframe option"
  disk :: dataframe
  save_calls :: nat
  marked_read :: "string list"

text \<open>The \<open>excel\<close> section of the configuration, as \<open>ExcelManager.__init__\<close> keeps it.\<close>

record config =
  columns :: "string \<rightharpoonup> string"
  target_columns :: "string list"
  backup_keep_days :: int

type_synonym 'a outcome = "(exn + 'a) \<times> state"

fun index_of :: "'a list \<Rightarrow> 'a \<Rightarrow> nat option" where
  "index_of [] x = None"
| "index_of (y # ys) x = (if y = x then Some 0 else map_option Suc (index_of ys x))"

text \<open>\<open>df.at[index, col]\<close>: a label that is not there raises \<open>KeyError\<close>.\<close>

definition get_at :: "dataframe \<Rightarrow> nat \<Rightarrow> string \<Rightarrow> exn + jval" where
  "get_at df i col =
     (case index_of (df_columns df) col of
        None \<Rightarrow> Inl (KeyError col)
      | Some k \<Rightarrow>
          if i < length (df_rows df) \<and> k < length (df_rows df ! i)
          then Inr (df_rows df ! i ! k)
          else Inl (KeyError col))"

text \<open>
  The table after \<open>df.at[index, col] = v\<close> has put \<open>v\<close> into the cell; the source
  reaches the write only after reading the cell.
\<close>

definition set_at :: "dataframe \<Rightarrow> nat \<Rightarrow> string \<Rightarrow> jval \<Rightarrow> dataframe" where
  "set_at df i col v =
     (case index_of (df_columns df) col of
        None \<Rightarrow> df
      | Some k \<Rightarrow>
          if i < length (df_rows df) \<and> k < length (df_rows df ! i)
          then df\<lparr>df_rows := (df_rows df)[i := (df_rows df ! i)[k := v]]\<rparr>
          else df)"

text \<open>
  One element of \<open>df[col].str.lower() == email.lower()\<close>: a cell that is not a string
  lowers to NaN, which equals nothing.
\<close>

definition mail_matches :: "library \<Rightarrow> string \<Rightarrow> nat \<Rightarrow> jval list \<Rightarrow> bool" where
  "mail_matches lib email k row =
     (k < length row \<and> (case row ! k of JStr m \<Rightarrow> series_lower lib m = str_lower lib email | _ \<Rightarrow> False))"

text \<open>The index labels of \<open>matching_rows\<close>, in table order.\<close>

definition matching_rows :: "library \<Rightarrow> dataframe \<Rightarrow> nat \<Rightarrow> string \<Rightarrow> nat list" where
  "matching_rows lib df k email =
     filter (\<lambda>i. mail_matches lib email k (df_rows df ! i)) [0..<length (df_rows df)]"

section \<open>ExcelManager.update_data\<close>

text \<open>
  The body of the inner loop, for one row label and one target column. The write comes
  before the log line, so a write that raises logs nothing.
\<close>

definition update_field ::
  "library \<Rightarrow> config \<Rightarrow> (string \<rightharpoonup> jval) \<Rightarrow> nat \<Rightarrow> string \<Rightarrow> state \<Rightarrow> unit outcome" where
  "update_field lib cfg analysis_results index target_column s =
     (case analysis_results target_column of
        None \<Rightarrow> (Inr (), s)
      | Some new_value \<Rightarrow>
          (case data s of
             None \<Rightarrow> (Inl (AttributeError ''at''), s)
           | Some df \<Rightarrow>
               (case columns cfg target_column of
                  None \<Rightarrow> (Inl (KeyError target_column), s)
                | Some col \<Rightarrow>
                    (case get_at df index col of
                       Inl e \<Rightarrow> (Inl e, s)
                     | Inr old_value \<Rightarrow>
                         if py_ne old_value new_value
                         then
                           (case at_store lib col new_value of
                              Inl e \<Rightarrow> (Inl e, s)
                            | Inr stored \<Rightarrow>
                                (Inr (), s\<lparr>log := log s @
                                   [(INFO, UpdatedRow index target_column old_value new_value)],
                                 data := Some (set_at df index col stored)\<rparr>))
                         else (Inr (), s)))))"

text \<open>\<open>for target_column in self.target_columns\<close>: a raise leaves the loop.\<close>

fun update_fields ::
  "library \<Rightarrow> config \<Rightarrow> (string \<rightharpoonup> jval) \<Rightarrow> nat \<Rightarrow> string list \<Rightarrow> state \<Rightarrow> unit outcome" where
  "update_fields lib cfg an index [] s = (Inr (), s)"
| "update_fields lib cfg an index (t # ts) s =
     (case update_field lib cfg an index t s of
        (Inl e, s') \<Rightarrow> (Inl e, s')
      | (Inr u, s') \<Rightarrow> update_fields lib cfg an index ts s')"

text \<open>\<open>for index, row in matching_rows.iterrows()\<close>.\<close>

fun update_rows ::
  "library \<Rightarrow> config \<Rightarrow> (string \<rightharpoonup> jval) \<Rightarrow> nat list \<Rightarrow> state \<Rightarrow> unit outcome" where
  "update_rows lib cfg an [] s = (Inr (), s)"
| "update_rows lib cfg an (i # is) s =
     (case update_fields lib cfg an i (target_columns cfg) s of
        (Inl e, s') \<Rightarrow> (Inl e, s')
      | (Inr u, s') \<Rightarrow> update_rows lib cfg an is s')"

text \<open>The \<open>try\<close> block of \<open>update_data\<close>.\<close>

definition update_data_try ::
  "library \<Rightarrow> config \<Rightarrow> string \<Rightarrow> (string \<rightharpoonup> jval) \<Rightarrow> state \<Rightarrow> unit outcome" where
  "update_data_try lib cfg email an s =
     (case columns cfg ''mail'' of
        None \<Rightarrow> (Inl (KeyError ''mail''), s)
      | Some mail_col \<Rightarrow>
          (case data s of
             None \<Rightarrow> (Inl (TypeError ''NoneType''), s)
           | Some df \<Rightarrow>
               (case index_of (df_columns df) mail_col of
                  None \<Rightarrow> (Inl (KeyError mail_col), s)
                | Some k \<Rightarrow>
                    if matching_rows lib df k email = []
                    then (Inr (), s\<lparr>log := log s @ [(WARNING, NoMatchingRow email)]\<rparr>)
                    else
                      (case update_rows lib cfg an (matching_rows lib df k email) s of
                         (Inl e, s') \<Rightarrow> (Inl e, s')
                       | (Inr u, s') \<Rightarrow>
                           (Inr (), s'\<lparr>updated_rows := updated_rows s' +
                               int (length (matching_rows lib df k email))\<rparr>)))))"

text \<open>
  \<open>update_data\<close>, with its \<open>except Exception\<close>: log, count, re-raise. The argument
  \<open>thread_data\<close> is never read.
\<close>

definition update_data ::
  "library \<Rightarrow> config \<Rightarrow> string \<Rightarrow> 't \<Rightarrow> (string \<rightharpoonup> jval) \<Rightarrow> state \<Rightarrow> unit outcome" where
  "update_data lib cfg email thread_data an s =
     (case update_data_try lib cfg email an s of
        (Inl e, s') \<Rightarrow>
          (Inl e, s'\<lparr>errors := errors s' + 1, log := log s' @ [(ERROR, UpdateFailed email e)]\<rparr>)
      | (Inr u, s') \<Rightarrow> (Inr u, s'))"

section \<open>ExcelManager: load_data, save_data, cleanup_old_backups\<close>

text \<open>
  \<open>load_data\<close>: \<open>disk\<close> stands for the table as \<open>read_excel(dtype=str).fillna("")\<close> returns
  it; \<open>read_error\<close> is what the read raises, if it does.
\<close>

definition load_data :: "exn option \<Rightarrow> state \<Rightarrow> unit outcome" where
  "load_data read_error s =
     (case read_error of
        Some e \<Rightarrow> (Inl e, s\<lparr>log := log s @ [(ERROR, LoadFailed e)]\<rparr>)
      | None \<Rightarrow> (Inr (), s\<lparr>log := log s @ [(INFO, LoadedRows (length (df_rows (disk s))))],
                           data := Some (disk s)\<rparr>))"

text \<open>
  \<open>save_data\<close>: \<open>write_error\<close> is what \<open>to_excel\<close> raises, if it does, with the table the
  interrupted write leaves in the file.
\<close>

definition save_data :: "(exn \<times> dataframe) option \<Rightarrow> state \<Rightarrow> unit outcome" where
  "save_data write_error s =
     (let s1 = s\<lparr>save_calls := save_calls s + 1\<rparr> in
      case data s1 of
        None \<Rightarrow> (Inl (AttributeError ''to_excel''),
                  s1\<lparr>log := log s1 @ [(ERROR, SaveFailed (AttributeError ''to_excel''))]\<rparr>)
      | Some df \<Rightarrow>
          (case write_error of
             Some (e, left) \<Rightarrow> (Inl e, s1\<lparr>log := log s1 @ [(ERROR, SaveFailed e)], disk := left\<rparr>)
           | None \<Rightarrow> (Inr (), s1\<lparr>log := log s1 @ [(INFO, ExcelSaved)], disk := df\<rparr>)))"

text \<open>
  An entry of the backup folder. Times are microseconds on the local clock, the resolution
  of \<open>datetime\<close>; the clock is read once for the call.
\<close>

record dir_entry =
  entry_name :: string
  entry_is_file :: bool
  entry_mtime :: int

text \<open>\<open>(datetime.now() - datetime.fromtimestamp(st_mtime)).days\<close>: \<open>timedelta\<close> floors.\<close>

definition file_age_days :: "int \<Rightarrow> int \<Rightarrow> int" where
  "file_age_days now mtime = (now - mtime) div 86400000000"

text \<open>
  The loop of \<open>cleanup_old_backups\<close> over the folder's entries; \<open>unlink\<close> is what deleting a
  path raises, if it does. Returned with the outcome: the entries left in the folder.
\<close>

fun cleanup_loop ::
  "config \<Rightarrow> int \<Rightarrow> (string \<Rightarrow> exn option) \<Rightarrow> dir_entry list \<Rightarrow> state \<Rightarrow>
     (exn + unit) \<times> dir_entry list \<times> state" where
  "cleanup_loop cfg now unlink [] s = (Inr (), [], s)"
| "cleanup_loop cfg now unlink (backup_file # rest) s =
     (if entry_is_file backup_file \<and>
         file_age_days now (entry_mtime backup_file) > backup_keep_days cfg
      then
        (case unlink (entry_name backup_file) of
           Some e \<Rightarrow> (Inl e, backup_file # rest, s)
         | None \<Rightarrow>
             cleanup_loop cfg now unlink rest
               (s\<lparr>log := log s @ [(INFO, DeletedOldBackup (entry_name backup_file))]\<rparr>))
      else
        (case cleanup_loop cfg now unlink rest s of
           (r, left, s') \<Rightarrow> (r, backup_file # left, s')))"

definition cleanup_old_backups ::
  "config \<Rightarrow> int \<Rightarrow> (string \<Rightarrow> exn option) \<Rightarrow> dir_entry list \<Rightarrow> state \<Rightarrow>
     (exn + unit) \<times> dir_entry list \<times> state" where
  "cleanup_old_backups cfg now unlink backup_dir s =
     (case cleanup_loop cfg now unlink backup_dir s of
        (Inl e, left, s') \<Rightarrow> (Inl e, left, s'\<lparr>log := log s' @ [(ERROR, CleanupFailed e)]\<rparr>)
      | (Inr u, left, s') \<Rightarrow> (Inr u, left, s'))"

section \<open>IMAPHandler\<close>

text \<open>
  A parsed message part: its content type as \<open>get_content_type()\<close> returns it, its
  \<open>Content-Disposition\<close> header if it has one, and either what
  \<open>get_payload(decode=True).decode()\<close> gives (the text, or the exception of a payload that
  does not decode) or the list of subparts.
\<close>

datatype mime =
    Single string "string option" "exn + string"
  | Multipart string "string option" "mime list"

fun is_multipart :: "mime \<Rightarrow> bool" where
  "is_multipart (Single ct cd p) = False"
| "is_multipart (Multipart ct cd ps) = True"

fun get_content_type :: "mime \<Rightarrow> string" where
  "get_content_type (Single ct cd p) = ct"
| "get_content_type (Multipart ct cd ps) = ct"

fun get_disposition :: "mime \<Rightarrow> string option" where
  "get_disposition (Single ct cd p) = cd"
| "get_disposition (Multipart ct cd ps) = cd"

text \<open>\<open>msg.walk()\<close>: the part itself, then its subparts depth first, in order.\<close>

fun walk :: "mime \<Rightarrow> mime list" where
  "walk (Single ct cd p) = [Single ct cd p]"
| "walk (Multipart ct cd ps) = Multipart ct cd ps # concat (map walk ps)"

text \<open>
  \<open>part.get_payload(decode=True).decode()\<close>: on a multipart part \<open>get_payload\<close> returns
  \<open>None\<close>, which has no \<open>decode\<close>.
\<close>

fun payload_decode :: "mime \<Rightarrow> exn + string" where
  "payload_decode (Single ct cd p) = p"
| "payload_decode (Multipart ct cd ps) = Inl (AttributeError ''decode'')"

text \<open>\<open>str(part.get("Content-Disposition"))\<close>.\<close>

fun str_of_header :: "string option \<Rightarrow> string" where
  "str_of_header None = ''None''"
| "str_of_header (Some v) = v"

fun starts_with :: "string \<Rightarrow> string \<Rightarrow> bool" where
  "starts_with [] hay = True"
| "starts_with (n # ns) [] = False"
| "starts_with (n # ns) (h # hs) = (n = h \<and> starts_with ns hs)"

text \<open>Python's \<open>needle in haystack\<close> on strings.\<close>

fun contains :: "string \<Rightarrow> string \<Rightarrow> bool" where
  "contains needle [] = (needle = [])"
| "contains needle (h # hs) = (starts_with needle (h # hs) \<or> contains needle hs)"

text \<open>
  The loop of \<open>_get_email_body\<close> over the walk. A walk that ends without a match falls out
  of the function, which then returns \<open>None\<close>.
\<close>

fun body_loop :: "mime list \<Rightarrow> exn + string option" where
  "body_loop [] = Inr None"
| "body_loop (part # parts) =
     (let content_type = get_content_type part;
          content_disposition = str_of_header (get_disposition part)
      in if content_type = ''text/plain'' \<and> \<not> contains ''attachment'' content_disposition
         then map_sum id Some (payload_decode part)
         else if content_type = ''text/html'' \<and> \<not> contains ''attachment'' content_disposition
         then map_sum id Some (payload_decode part)
         else body_loop parts)"

definition get_email_body_try :: "mime \<Rightarrow> exn + string option" where
  "get_email_body_try msg =
     (if is_multipart msg then body_loop (walk msg)
      else map_sum id Some (payload_decode msg))"

text \<open>\<open>_get_email_body\<close>: any exception is logged and counted, and the body is \<open>""\<close>.\<close>

definition get_email_body :: "mime \<Rightarrow> state \<Rightarrow> string option \<times> state" where
  "get_email_body msg s =
     (case get_email_body_try msg of
        Inl e \<Rightarrow> (Some [], s\<lparr>errors := errors s + 1, log := log s @ [(ERROR, BodyFailed e)]\<rparr>)
      | Inr b \<Rightarrow> (b, s))"

text \<open>
  A fetched message: the headers \<open>_parse_email\<close> reads, with \<open>parseaddr(...)[1]\<close> of the
  From and To headers already taken (an exception where \<open>parseaddr\<close> raises), and the body.
\<close>

record raw_email =
  hdr_subject :: "string option"
  addr_from :: "exn + string"
  addr_to :: "exn + string"
  hdr_message_id :: "string option"
  content :: mime

text \<open>The dictionary \<open>_parse_email\<close> returns; the empty dictionary is \<open>None\<close>.\<close>

record email_data =
  e_id :: string
  e_subject :: "string option"
  e_from :: string
  e_to :: string
  e_message_id :: "string option"
  e_body :: "string option"

definition parse_email :: "raw_email \<Rightarrow> string \<Rightarrow> state \<Rightarrow> email_data option \<times> state" where
  "parse_email msg email_id s =
     (case addr_from msg of
        Inl e \<Rightarrow> (None, s\<lparr>errors := errors s + 1, log := log s @ [(ERROR, ParseFailed email_id e)]\<rparr>)
      | Inr sender \<Rightarrow>
          (case addr_to msg of
             Inl e \<Rightarrow>
               (None, s\<lparr>errors := errors s + 1, log := log s @ [(ERROR, ParseFailed email_id e)]\<rparr>)
           | Inr recipient \<Rightarrow>
               (case get_email_body (content msg) s of
                  (body, s') \<Rightarrow>
                    (Some \<lparr>e_id = email_id, e_subject = hdr_subject msg, e_from = sender,
                           e_to = recipient, e_message_id = hdr_message_id msg, e_body = body\<rparr>,
                     s'))))"

text \<open>
  The server behind \<open>self.connection\<close>: what \<open>select\<close> raises, if it does (its status is
  not looked at); what \<open>search\<close> in the selected folder raises or returns (status and
  message ids); what \<open>fetch\<close> raises or returns (status and the message, \<open>None\<close> where
  \<open>data[0]\<close> is not a pair).
\<close>

record imap_conn =
  conn_select :: "string \<Rightarrow> exn option"
  conn_search :: "string \<Rightarrow> string \<Rightarrow> exn + (string \<times> string list)"
  conn_fetch :: "string \<Rightarrow> string \<Rightarrow> exn + (string \<times> raw_email option)"

text \<open>The \<open>imap\<close> section of the configuration; a key that is absent is \<open>None\<close>.\<close>

record imap_config =
  imap_host :: "string option"
  imap_folder :: "string option"

text \<open>The loop over \<open>email_ids\<close>, the same in \<open>fetch_sent_emails\<close> and \<open>fetch_replies\<close>.\<close>

fun fetch_loop ::
  "imap_conn \<Rightarrow> string \<Rightarrow> string list \<Rightarrow> email_data option list \<Rightarrow> state \<Rightarrow>
     (email_data option list) outcome" where
  "fetch_loop conn folder [] acc s = (Inr acc, s)"
| "fetch_loop conn folder (email_id # ids) acc s =
     (case conn_fetch conn folder email_id of
        Inl e \<Rightarrow> (Inl e, s)
      | Inr (status, fetched) \<Rightarrow>
          if status \<noteq> ''OK''
          then fetch_loop conn folder ids acc (s\<lparr>log := log s @ [(ERROR, FetchFailed email_id)]\<rparr>)
          else
            (case fetched of
               None \<Rightarrow> (Inl (TypeError ''NoneType''), s)
             | Some msg \<Rightarrow>
                 (case parse_email msg email_id s of
                    (parsed, s1) \<Rightarrow>
                      fetch_loop conn folder ids (acc @ [parsed])
                        (s1\<lparr>processed_emails := processed_emails s1 + 1\<rparr>))))"

text \<open>
  The two ways one pass of the loop can end other than by skipping the id: it raises
  (the \<open>fetch\<close> raises, or answers \<open>OK\<close> with a \<open>data[0]\<close> that cannot be subscripted), or
  it appends the parsed message and counts it.
\<close>

definition fetch_raises :: "imap_conn \<Rightarrow> string \<Rightarrow> string \<Rightarrow> bool" where
  "fetch_raises conn folder email_id =
     (case conn_fetch conn folder email_id of
        Inl e \<Rightarrow> True
      | Inr (status, fetched) \<Rightarrow> status = ''OK'' \<and> fetched = None)"

definition fetch_appends :: "imap_conn \<Rightarrow> string \<Rightarrow> string \<Rightarrow> bool" where
  "fetch_appends conn folder email_id =
     (case conn_fetch conn folder email_id of
        Inl e \<Rightarrow> False
      | Inr (status, fetched) \<Rightarrow> status = ''OK'' \<and> fetched \<noteq> None)"

definition sent_folder :: "library \<Rightarrow> string \<Rightarrow> string" where
  "sent_folder lib host =
     (if contains ''gmail'' (str_lower lib host)
      then [CHR 0x22] @ ''[Gmail]/Sent Mail'' @ [CHR 0x22] else ''Sent'')"

text \<open>The \<open>try\<close> block of \<open>fetch_sent_emails\<close>.\<close>

definition fetch_sent_emails_try ::
  "library \<Rightarrow> imap_config \<Rightarrow> imap_conn option \<Rightarrow> state \<Rightarrow> (email_data option list) outcome" where
  "fetch_sent_emails_try lib icfg connection s =
     (case connection of
        None \<Rightarrow> (Inl (AttributeError ''select''), s)
      | Some conn \<Rightarrow>
          (case imap_host icfg of
             None \<Rightarrow> (Inl (KeyError ''host''), s)
           | Some host \<Rightarrow>
               (case conn_select conn (sent_folder lib host) of
                  Some e \<Rightarrow> (Inl e, s)
                | None \<Rightarrow>
                    (case conn_search conn (sent_folder lib host) ''ALL'' of
                       Inl e \<Rightarrow> (Inl e, s)
                     | Inr (status, email_ids) \<Rightarrow>
                         if status \<noteq> ''OK''
                         then (Inr [], s\<lparr>log := log s @ [(WARNING, NoSentEmails)]\<rparr>)
                         else
                           (case fetch_loop conn (sent_folder lib host) email_ids [] s of
                              (Inl e, s') \<Rightarrow> (Inl e, s')
                            | (Inr sent_emails, s') \<Rightarrow>
                                (Inr sent_emails,
                                 s'\<lparr>log := log s' @ [(INFO, Fetched (length sent_emails))]\<rparr>))))))"

text \<open>\<open>fetch_sent_emails\<close>: \<open>except Exception\<close> logs, counts and returns the empty list.\<close>

definition fetch_sent_emails ::
  "library \<Rightarrow> imap_config \<Rightarrow> imap_conn option \<Rightarrow> state \<Rightarrow> email_data option list \<times> state" where
  "fetch_sent_emails lib icfg connection s =
     (case fetch_sent_emails_try lib icfg connection s of
        (Inl e, s') \<Rightarrow> ([], s'\<lparr>log := log s' @ [(ERROR, FetchError e)], errors := errors s' + 1\<rparr>)
      | (Inr sent_emails, s') \<Rightarrow> (sent_emails, s'))"

text \<open>The search criterion of \<open>fetch_replies\<close>; \<open>None\<close> formats as \<open>None\<close>.\<close>

definition references_criterion :: "string option \<Rightarrow> string" where
  "references_criterion message_id =
     ''HEADER '' @ [CHR 0x22] @ ''References'' @ [CHR 0x22] @ '' '' @
     [CHR 0x22] @ str_of_header message_id @ [CHR 0x22]"

text \<open>
  The \<open>try\<close> block of \<open>fetch_replies\<close>. A \<open>sent_email\<close> that is the empty dictionary has
  no key \<open>message_id\<close>.
\<close>

definition fetch_replies_try ::
  "imap_config \<Rightarrow> imap_conn option \<Rightarrow> email_data option \<Rightarrow> state \<Rightarrow>
     (email_data option list) outcome" where
  "fetch_replies_try icfg connection sent_email s =
     (case connection of
        None \<Rightarrow> (Inl (AttributeError ''select''), s)
      | Some conn \<Rightarrow>
          (case imap_folder icfg of
             None \<Rightarrow> (Inl (KeyError ''folder''), s)
           | Some folder \<Rightarrow>
               (case conn_select conn folder of
                  Some e \<Rightarrow> (Inl e, s)
                | None \<Rightarrow>
                    (case sent_email of
                       None \<Rightarrow> (Inl (KeyError ''message_id''), s)
                     | Some sent \<Rightarrow>
                         (case conn_search conn folder (references_criterion (e_message_id sent)) of
                            Inl e \<Rightarrow> (Inl e, s)
                          | Inr (status, email_ids) \<Rightarrow>
                              if status \<noteq> ''OK''
                              then (Inr [], s\<lparr>log := log s @ [(WARNING, NoRepliesFound)]\<rparr>)
                              else
                                (case fetch_loop conn folder email_ids [] s of
                                   (Inl e, s') \<Rightarrow> (Inl e, s')
                                 | (Inr replies, s') \<Rightarrow>
                                     (Inr replies,
                                      s'\<lparr>log := log s' @ [(INFO, Fetched (length replies))]\<rparr>)))))))"

definition fetch_replies ::
  "imap_config \<Rightarrow> imap_conn option \<Rightarrow> email_data option \<Rightarrow> state \<Rightarrow>
     email_data option list \<times> state" where
  "fetch_replies icfg connection sent_email s =
     (case fetch_replies_try icfg connection sent_email s of
        (Inl e, s') \<Rightarrow> ([], s'\<lparr>log := log s' @ [(ERROR, FetchError e)], errors := errors s' + 1\<rparr>)
      | (Inr replies, s') \<Rightarrow> (replies, s'))"

section \<open>The orchestrator\<close>

text \<open>
  A message and a thread as \<open>process_emails\<close> reads them: \<open>message.get("processed")\<close> as
  a truth value, and the keys it subscripts, \<open>None\<close> where the key is absent.
\<close>

record message =
  m_processed :: bool
  m_body :: "string option"
  m_from :: "string option"
  m_message_id :: "string option"

record thread =
  t_messages :: "message list option"
  t_context :: "string option"

text \<open>
  The attributes an \<open>IMAPHandler\<close> object has: the methods of the class and the fields
  its \<open>__init__\<close> sets. Likewise for \<open>LMStudioClient\<close>.
\<close>

definition IMAPHandler_attrs :: "string list" where
  "IMAPHandler_attrs =
     [''__init__'', ''connect'', ''fetch_sent_emails'', ''fetch_replies'', ''_parse_email'',
      ''_get_email_body'', ''disconnect'', ''config'', ''stats'', ''connection'', ''logger'']"

definition LMStudioClient_attrs :: "string list" where
  "LMStudioClient_attrs =
     [''__init__'', ''analyze_text'', ''health_check'', ''base_url'', ''api_key'', ''timeout'',
      ''logger'', ''headers'']"

text \<open>
  The two objects \<open>process_emails\<close> is handed. It calls \<open>get_email_threads\<close>,
  \<open>mark_as_read\<close> and \<open>analyze_email\<close> on them, none of which the source defines: an
  object carries the names of its attributes, and what those three calls would answer on an
  object that has them (the threads or an exception; the exception of a failed flag update,
  if any; the analysis result or an exception).
\<close>

record imap_handler =
  ih_attrs :: "string list"
  ih_get_email_threads :: "exn + thread list"
  ih_mark_as_read :: "string \<Rightarrow> exn option"

record lm_client =
  lm_attrs :: "string list"
  lm_analyze_email :: "string \<Rightarrow> string option \<Rightarrow> exn + (string \<rightharpoonup> jval)"

text \<open>
  Modelled from the spec: \<open>IMAPHandler.mark_as_read\<close> is missing from the source. The spec:
  "sets the read flag on the server for the given message".
\<close>

definition mark_as_read :: "imap_handler \<Rightarrow> string \<Rightarrow> state \<Rightarrow> unit outcome" where
  "mark_as_read ih message_id s =
     (case ih_mark_as_read ih message_id of
        Some e \<Rightarrow> (Inl e, s)
      | None \<Rightarrow> (Inr (), s\<lparr>marked_read := marked_read s @ [message_id]\<rparr>))"

text \<open>The body of the inner loop of \<open>process_emails\<close>, for one message of a thread.\<close>

definition process_message ::
  "library \<Rightarrow> imap_handler \<Rightarrow> lm_client \<Rightarrow> config \<Rightarrow> thread \<Rightarrow> message \<Rightarrow> state \<Rightarrow> unit outcome" where
  "process_message lib ih lm cfg thread message s =
     (if m_processed message then (Inr (), s)
      else if ''analyze_email'' \<notin> set (lm_attrs lm)
      then (Inl (AttributeError ''analyze_email''), s)
      else
        (case m_body message of
           None \<Rightarrow> (Inl (KeyError ''body''), s)
         | Some body \<Rightarrow>
             (case lm_analyze_email lm body (t_context thread) of
                Inl e \<Rightarrow> (Inl e, s)
              | Inr analysis_result \<Rightarrow>
                  (case analysis_result ''error'' of
                     Some err \<Rightarrow> (Inr (), s\<lparr>log := log s @ [(ERROR, AnalysisFailed err)]\<rparr>)
                   | None \<Rightarrow>
                       (case m_from message of
                          None \<Rightarrow> (Inl (KeyError ''from''), s)
                        | Some sender \<Rightarrow>
                            (case update_data lib cfg sender thread analysis_result s of
                               (Inl e, s1) \<Rightarrow> (Inl e, s1)
                             | (Inr u, s1) \<Rightarrow>
                                 if ''mark_as_read'' \<notin> set (ih_attrs ih)
                                 then (Inl (AttributeError ''mark_as_read''), s1)
                                 else
                                   (case m_message_id message of
                                      None \<Rightarrow> (Inl (KeyError ''message_id''), s1)
                                    | Some message_id \<Rightarrow>
                                        (case mark_as_read ih message_id s1 of
                                           (Inl e, s2) \<Rightarrow> (Inl e, s2)
                                         | (Inr u, s2) \<Rightarrow>
                                             (Inr (), s2\<lparr>processed_emails :=
                                                processed_emails s2 + 1\<rparr>)))))))))"

fun process_messages ::
  "library \<Rightarrow> imap_handler \<Rightarrow> lm_client \<Rightarrow> config \<Rightarrow> thread \<Rightarrow> message list \<Rightarrow> state \<Rightarrow> unit outcome" where
  "process_messages lib ih lm cfg thread [] s = (Inr (), s)"
| "process_messages lib ih lm cfg thread (message # messages) s =
     (case process_message lib ih lm cfg thread message s of
        (Inl e, s') \<Rightarrow> (Inl e, s')
      | (Inr u, s') \<Rightarrow> process_messages lib ih lm cfg thread messages s')"

fun process_threads ::
  "library \<Rightarrow> imap_handler \<Rightarrow> lm_client \<Rightarrow> config \<Rightarrow> thread list \<Rightarrow> state \<Rightarrow> unit outcome" where
  "process_threads lib ih lm cfg [] s = (Inr (), s)"
| "process_threads lib ih lm cfg (thread # threads) s =
     (case t_messages thread of
        None \<Rightarrow> (Inl (KeyError ''messages''), s)
      | Some messages \<Rightarrow>
          (case process_messages lib ih lm cfg thread messages s of
             (Inl e, s') \<Rightarrow> (Inl e, s')
           | (Inr u, s') \<Rightarrow> process_threads lib ih lm cfg threads s'))"

text \<open>The \<open>try\<close> block of \<open>process_emails\<close>.\<close>

definition process_emails_try ::
  "library \<Rightarrow> imap_handler \<Rightarrow> lm_client \<Rightarrow> config \<Rightarrow> state \<Rightarrow> unit outcome" where
  "process_emails_try lib ih lm cfg s =
     (if ''get_email_threads'' \<notin> set (ih_attrs ih)
      then (Inl (AttributeError ''get_email_threads''), s)
      else
        (case ih_get_email_threads ih of
           Inl e \<Rightarrow> (Inl e, s)
         | Inr threads \<Rightarrow> process_threads lib ih lm cfg threads s))"

text \<open>\<open>process_emails\<close>: \<open>except Exception\<close> logs, counts and re-raises.\<close>

definition process_emails ::
  "library \<Rightarrow> imap_handler \<Rightarrow> lm_client \<Rightarrow> config \<Rightarrow> state \<Rightarrow> unit outcome" where
  "process_emails lib ih lm cfg s =
     (case process_emails_try lib ih lm cfg
             (s\<lparr>log := log s @ [(INFO, StartProcessing), (INFO, ProcessingAsUser)]\<rparr>) of
        (Inl e, s') \<Rightarrow>
          (Inl e, s'\<lparr>log := log s' @ [(ERROR, ProcessingError e)], errors := errors s' + 1\<rparr>)
      | (Inr u, s') \<Rightarrow> (Inr u, s'))"

text \<open>The state \<open>main\<close> starts from: a fresh \<open>ProcessingStats\<close>, nothing loaded.\<close>

definition initial_state :: "dataframe \<Rightarrow> state" where
  "initial_state file =
     \<lparr>processed_emails = 0, updated_rows = 0, errors = 0, log = [], data = None, disk = file,
      save_calls = 0, marked_read = []\<rparr>"

text \<open>The two \<open>except\<close> clauses of \<open>main\<close>: both end in \<open>sys.exit(1)\<close>.\<close>

fun main_except :: "exn \<Rightarrow> state \<Rightarrow> int \<times> state" where
  "main_except (FileNotFoundError m) s =
     (1, s\<lparr>log := log s @ [(CRITICAL, CriticalError (FileNotFoundError m))]\<rparr>)"
| "main_except e s = (1, s\<lparr>log := log s @ [(ERROR, UnexpectedError e)]\<rparr>)"

text \<open>
  \<open>main\<close> from the point where both objects are built: \<open>startup\<close> is what \<open>load_config\<close>,
  the constructors and \<open>check_structure\<close> raise, or the configuration. The result is the
  exit code of the process and the final state.
\<close>

definition main_from ::
  "library \<Rightarrow> imap_handler \<Rightarrow> lm_client \<Rightarrow> exn + config \<Rightarrow> exn option \<Rightarrow> (exn \<times> dataframe) option \<Rightarrow>
     dataframe \<Rightarrow> int \<times> state" where
  "main_from lib ih lm startup read_error write_error file =
     (case startup of
        Inl e \<Rightarrow> main_except e (initial_state file)
      | Inr cfg \<Rightarrow>
          (case load_data read_error (initial_state file) of
             (Inl e, s1) \<Rightarrow> main_except e s1
           | (Inr u, s1) \<Rightarrow>
               (case process_emails lib ih lm cfg s1 of
                  (Inl e, s2) \<Rightarrow> main_except e s2
                | (Inr u, s2) \<Rightarrow>
                    (case save_data write_error s2 of
                       (Inl e, s3) \<Rightarrow> main_except e s3
                     | (Inr u, s3) \<Rightarrow> (0, s3\<lparr>log := log s3 @ [(INFO, Completed)]\<rparr>)))))"

section \<open>Example inputs\<close>

text \<open>
  A library for the examples, whose strings are all ASCII: on such strings both case
  foldings map the letters \<open>A\<close> to \<open>Z\<close> to \<open>a\<close> to \<open>z\<close> and nothing else. Its columns are
  columns of strings, as \<open>read_excel(dtype=str)\<close> makes them: they take a string, keep
  \<open>None\<close> as NaN and refuse a number or a truth value.
\<close>

definition ascii_lower_char :: "char \<Rightarrow> char" where
  "ascii_lower_char c =
     (let n = (of_char c :: nat) in if 65 \<le> n \<and> n \<le> 90 then char_of (n + 32) else c)"

definition ascii_lower :: "string \<Rightarrow> string" where
  "ascii_lower s = map ascii_lower_char s"

fun string_column_store :: "string \<Rightarrow> jval \<Rightarrow> exn + jval" where
  "string_column_store col (JStr v) = Inr (JStr v)"
| "string_column_store col JNull = Inr JNaN"
| "string_column_store col JNaN = Inr JNaN"
| "string_column_store col v = Inl (TypeError ''Invalid value for dtype str'')"

definition ex_lib :: library where
  "ex_lib = \<lparr>str_lower = ascii_lower, series_lower = ascii_lower,
             at_store = string_column_store\<rparr>"

text \<open>
  A table of three rows, two of them for the same address in different case, and a
  configuration with two target fields.
\<close>

definition ex_cfg :: config where
  "ex_cfg = \<lparr>columns = [''mail'' \<mapsto> ''Mail'', ''status'' \<mapsto> ''Status'', ''note'' \<mapsto> ''Note''],
             target_columns = [''status'', ''note''], backup_keep_days = 7\<rparr>"

definition ex_df :: dataframe where
  "ex_df = \<lparr>df_columns = [''Mail'', ''Status'', ''Note''],
            df_rows = [[JStr ''Bob@X.org'', JStr ''new'', JStr ''''],
                       [JStr ''amy@x.org'', JStr ''new'', JStr ''x''],
                       [JStr ''BOB@x.org'', JStr ''replied'', JStr '''']]\<rparr>"

definition ex_state :: state where
  "ex_state = \<lparr>processed_emails = 0, updated_rows = 0, errors = 0, log = [],
               data = Some ex_df, disk = ex_df, save_calls = 0, marked_read = []\<rparr>"

definition ex_analysis :: "string \<rightharpoonup> jval" where
  "ex_analysis = [''status'' \<mapsto> JStr ''replied'']"

definition ex_df_after :: dataframe where
  "ex_df_after = \<lparr>df_columns = [''Mail'', ''Status'', ''Note''],
                  df_rows = [[JStr ''Bob@X.org'', JStr ''replied'', JStr ''''],
                             [JStr ''amy@x.org'', JStr ''new'', JStr ''x''],
                             [JStr ''BOB@x.org'', JStr ''replied'', JStr '''']]\<rparr>"

definition ex_state_after :: state where
  "ex_state_after =
     \<lparr>processed_emails = 0, updated_rows = 2, errors = 0,
      log = [(INFO, UpdatedRow 0 ''status'' (JStr ''new'') (JStr ''replied''))],
      data = Some ex_df_after, disk = ex_df, save_calls = 0, marked_read = []\<rparr>"

text \<open>
  A backup folder read ten days after the epoch of the clock, with seven days kept: a
  file eight days old, a file seven days and twenty-three hours old, a directory ten
  days old, and a file written an hour ago.
\<close>

definition ex_now :: int where
  "ex_now = 10 * 86400000000"

definition ex_backup_dir :: "dir_entry list" where
  "ex_backup_dir =
     [\<lparr>entry_name = ''data_backup_1.xlsx'', entry_is_file = True, entry_mtime = 2 * 86400000000\<rparr>,
      \<lparr>entry_name = ''data_backup_2.xlsx'', entry_is_file = True,
        entry_mtime = 2 * 86400000000 + 3600000000\<rparr>,
      \<lparr>entry_name = ''old'', entry_is_file = False, entry_mtime = 0\<rparr>,
      \<lparr>entry_name = ''data_backup_3.xlsx'', entry_is_file = True,
        entry_mtime = 10 * 86400000000 - 3600000000\<rparr>]"

text \<open>
  A message whose HTML alternative comes before its plain-text alternative, and the same
  two parts in the other order behind an attached text file.
\<close>

definition ex_html_first :: mime where
  "ex_html_first =
     Multipart ''multipart/alternative'' None
       [Single ''text/html'' None (Inr ''<p>hello</p>''),
        Single ''text/plain'' None (Inr ''hello'')]"

definition ex_plain_first :: mime where
  "ex_plain_first =
     Multipart ''multipart/mixed'' None
       [Single ''text/plain'' (Some ''attachment; filename=notes.txt'') (Inr ''notes''),
        Multipart ''multipart/alternative'' None
          [Single ''text/plain'' None (Inr ''hello''),
           Single ''text/html'' None (Inr ''<p>hello</p>'')]]"

text \<open>
  A mail server with three sent messages, of which the second cannot be fetched and the
  third has a From header that \<open>parseaddr\<close> rejects; a folder \<open>INBOX\<close> holding the first
  two, a folder \<open>Drafts\<close> holding the first and a message whose fetch raises, a folder
  \<open>Archive\<close> whose search is refused with status \<open>NO\<close>, and any other folder failing the
  search with an exception.
\<close>

definition ex_raw :: raw_email where
  "ex_raw = \<lparr>hdr_subject = Some ''Offer'', addr_from = Inr ''bob@x.org'',
             addr_to = Inr ''me@y.org'', hdr_message_id = Some ''<m1@x.org>'',
             content = ex_plain_first\<rparr>"

definition ex_raw_bad :: raw_email where
  "ex_raw_bad = \<lparr>hdr_subject = None, addr_from = Inl (TypeError ''NoneType''),
                 addr_to = Inr ''me@y.org'', hdr_message_id = None,
                 content = Single ''text/plain'' None (Inr ''x'')\<rparr>"

definition ex_conn :: imap_conn where
  "ex_conn =
     \<lparr>conn_select = (\<lambda>folder. None),
      conn_search = (\<lambda>folder criterion.
        if folder = ''Sent'' then Inr (''OK'', [''1'', ''2'', ''3''])
        else if folder = ''INBOX'' then Inr (''OK'', [''1'', ''2''])
        else if folder = ''Drafts'' then Inr (''OK'', [''1'', ''9''])
        else if folder = ''Archive'' then Inr (''NO'', [])
        else Inl (IMAPError ''search'')),
      conn_fetch = (\<lambda>folder email_id.
        if email_id = ''1'' then Inr (''OK'', Some ex_raw)
        else if email_id = ''2'' then Inr (''NO'', None)
        else if email_id = ''3'' then Inr (''OK'', Some ex_raw_bad)
        else Inl (IMAPError ''fetch''))\<rparr>"

definition ex_icfg :: imap_config where
  "ex_icfg = \<lparr>imap_host = Some ''imap.zoho.com'', imap_folder = Some ''INBOX''\<rparr>"

definition ex_parsed :: "string \<Rightarrow> email_data" where
  "ex_parsed email_id =
     \<lparr>e_id = email_id, e_subject = Some ''Offer'', e_from = ''bob@x.org'', e_to = ''me@y.org'',
      e_message_id = Some ''<m1@x.org>'', e_body = Some ''hello''\<rparr>"

text \<open>
  Two threads of one message each, as in the scenario of the spec: the analysis of the
  first message answers with an \<open>error\<close> key, that of the second with a status. The
  handler and the client are objects that do have the methods \<open>process_emails\<close> calls.
\<close>

definition ex_msg1 :: message where
  "ex_msg1 = \<lparr>m_processed = False, m_body = Some ''first'', m_from = Some ''amy@x.org'',
              m_message_id = Some ''<a@x.org>''\<rparr>"

definition ex_msg2 :: message where
  "ex_msg2 = \<lparr>m_processed = False, m_body = Some ''second'', m_from = Some ''bob@x.org'',
              m_message_id = Some ''<b@x.org>''\<rparr>"

definition ex_thread1 :: thread where
  "ex_thread1 = \<lparr>t_messages = Some [ex_msg1], t_context = None\<rparr>"

definition ex_thread2 :: thread where
  "ex_thread2 = \<lparr>t_messages = Some [ex_msg2], t_context = None\<rparr>"

definition ex_error_result :: "string \<rightharpoonup> jval" where
  "ex_error_result = [''error'' \<mapsto> JStr ''model unavailable'']"

definition ex_lm :: lm_client where
  "ex_lm =
     \<lparr>lm_attrs = ''analyze_email'' # LMStudioClient_attrs,
      lm_analyze_email = (\<lambda>body context.
        if body = ''first'' then Inr ex_error_result else Inr ex_analysis)\<rparr>"

definition ex_ih :: imap_handler where
  "ex_ih =
     \<lparr>ih_attrs = ''get_email_threads'' # ''mark_as_read'' # IMAPHandler_attrs,
      ih_get_email_threads = Inr [ex_thread1, ex_thread2],
      ih_mark_as_read = (\<lambda>message_id. None)\<rparr>"

text \<open>The same handler on a server that refuses to set the flag.\<close>

definition ex_ih_refused :: imap_handler where
  "ex_ih_refused = ex_ih\<lparr>ih_mark_as_read := (\<lambda>message_id. Some (IMAPError ''store''))\<rparr>"

text \<open>An object of the class \<open>IMAPHandler\<close> as the source defines it.\<close>

definition ex_IMAPHandler :: imap_handler where
  "ex_IMAPHandler =
     \<lparr>ih_attrs = IMAPHandler_attrs,
      ih_get_email_threads = Inr [ex_thread1, ex_thread2],
      ih_mark_as_read = (\<lambda>message_id. None)\<rparr>"

text \<open>The state in which \<open>process_emails\<close> leaves \<open>ex_state\<close> on those two threads.\<close>

definition ex_run_after :: state where
  "ex_run_after =
     \<lparr>processed_emails = 1, updated_rows = 2, errors = 0,
      log = [(INFO, StartProcessing), (INFO, ProcessingAsUser),
             (ERROR, AnalysisFailed (JStr ''model unavailable'')),
             (INFO, UpdatedRow 0 ''status'' (JStr ''new'') (JStr ''replied''))],
      data = Some ex_df_after, disk = ex_df, save_calls = 0, marked_read = [''<b@x.org>'']\<rparr>"

text \<open>The states of that run when it reaches the second message, and after its update.\<close>

definition ex_run_skipped :: state where
  "ex_run_skipped =
     \<lparr>processed_emails = 0, updated_rows = 0, errors = 0,
      log = [(INFO, StartProcessing), (INFO, ProcessingAsUser),
             (ERROR, AnalysisFailed (JStr ''model unavailable''))],
      data = Some ex_df, disk = ex_df, save_calls = 0, marked_read = []\<rparr>"

definition ex_run_updated :: state where
  "ex_run_updated =
     \<lparr>processed_emails = 0, updated_rows = 2, errors = 0,
      log = [(INFO, StartProcessing), (INFO, ProcessingAsUser),
             (ERROR, AnalysisFailed (JStr ''model unavailable'')),
             (INFO, UpdatedRow 0 ''status'' (JStr ''new'') (JStr ''replied''))],
      data = Some ex_df_after, disk = ex_df, save_calls = 0, marked_read = []\<rparr>"

section \<open>Facts about update_data\<close>

lemma update_field_stats:
  "update_field lib cfg an j t s = (r, s') \<Longrightarrow>
     updated_rows s' = updated_rows s \<and> errors s' = errors s \<and> processed_emails s' = processed_emails s
     \<and> disk s' = disk s \<and> save_calls s' = save_calls s \<and> marked_read s' = marked_read s"
  by (auto simp: update_field_def split: option.splits sum.splits if_splits)

lemma update_fields_stats:
  "update_fields lib cfg an j ts s = (r, s') \<Longrightarrow>
     updated_rows s' = updated_rows s \<and> errors s' = errors s \<and> processed_emails s' = processed_emails s
     \<and> disk s' = disk s \<and> save_calls s' = save_calls s \<and> marked_read s' = marked_read s"
proof (induction ts arbitrary: s)
  case Nil
  then show ?case by simp
next
  case (Cons t ts)
  obtain r1 s1 where f: "update_field lib cfg an j t s = (r1, s1)" by (cases "update_field lib cfg an j t s")
  show ?case
  proof (cases r1)
    case (Inl e)
    with Cons.prems f update_field_stats[OF f] show ?thesis by simp
  next
    case (Inr u)
    with Cons.prems f have "update_fields lib cfg an j ts s1 = (r, s')" by simp
    from Cons.IH[OF this] update_field_stats[OF f] show ?thesis by simp
  qed
qed

lemma update_rows_stats:
  "update_rows lib cfg an is s = (r, s') \<Longrightarrow>
     updated_rows s' = updated_rows s \<and> errors s' = errors s \<and> processed_emails s' = processed_emails s
     \<and> disk s' = disk s \<and> save_calls s' = save_calls s \<and> marked_read s' = marked_read s"
proof (induction "is" arbitrary: s)
  case Nil
  then show ?case by simp
next
  case (Cons i "is")
  obtain r1 s1 where f: "update_fields lib cfg an i (target_columns cfg) s = (r1, s1)"
    by (cases "update_fields lib cfg an i (target_columns cfg) s")
  show ?case
  proof (cases r1)
    case (Inl e)
    with Cons.prems f update_fields_stats[OF f] show ?thesis by simp
  next
    case (Inr u)
    with Cons.prems f have "update_rows lib cfg an is s1 = (r, s')" by simp
    from Cons.IH[OF this] update_fields_stats[OF f] show ?thesis by simp
  qed
qed















lemma update_data_success:
  assumes "update_data lib cfg email td an s = (Inr (), s')"
      and "columns cfg ''mail'' = Some mc" and "data s = Some df"
      and "index_of (df_columns df) mc = Some k"
      and "matching_rows lib df k email \<noteq> []"
  obtains s1 where "update_rows lib cfg an (matching_rows lib df k email) s = (Inr (), s1)"
      and "s' = s1\<lparr>updated_rows := updated_rows s1 + int (length (matching_rows lib df k email))\<rparr>"
proof -
  obtain r1 s1 where u: "update_rows lib cfg an (matching_rows lib df k email) s = (r1, s1)"
    by (cases "update_rows lib cfg an (matching_rows lib df k email) s")
  from assms u have "r1 = Inr ()"
    and "s' = s1\<lparr>updated_rows := updated_rows s1 + int (length (matching_rows lib df k email))\<rparr>"
    by (auto simp: update_data_def update_data_try_def split: sum.splits)
  with u that show thesis by simp
qed

text \<open>
  C4. For a loaded table whose mail column is configured and present, and an address
  whose \<open>lower()\<close> no row's mail cell, lowered by \<open>.str.lower()\<close>, equals:
  \<open>update_data\<close> returns without raising, and the state it leaves differs from the one it
  found by the warning in the log only, so every cell and every counter is as it was.
\<close>

theorem update_data_no_match:
  assumes "columns cfg ''mail'' = Some mail_col"
      and "data s = Some df"
      and "index_of (df_columns df) mail_col = Some k"
      and "\<forall>row \<in> set (df_rows df). \<forall>m. k < length row \<and> row ! k = JStr m \<longrightarrow>
             series_lower lib m \<noteq> str_lower lib email"
  shows "update_data lib cfg email thread_data an s =
           (Inr (), s\<lparr>log := log s @ [(WARNING, NoMatchingRow email)]\<rparr>)"
proof -
  have "\<not> mail_matches lib email k (df_rows df ! i)" if "i < length (df_rows df)" for i
    using assms(4) that by (auto simp: mail_matches_def split: jval.splits)
  then have "matching_rows lib df k email = []"
    by (auto simp: matching_rows_def filter_empty_conv)
  with assms(1-3) show ?thesis
    by (simp add: update_data_def update_data_try_def)
qed

theorem update_data_no_match_witness:
  "columns ex_cfg ''mail'' = Some ''Mail'' \<and> data ex_state = Some ex_df \<and>
   index_of (df_columns ex_df) ''Mail'' = Some 0 \<and>
   matching_rows ex_lib ex_df 0 ''carol@x.org'' = [] \<and>
   update_data ex_lib ex_cfg ''carol@x.org'' () ex_analysis ex_state =
     (Inr (), ex_state\<lparr>log := log ex_state @ [(WARNING, NoMatchingRow ''carol@x.org'')]\<rparr>)"
proof -
  have h1: "columns ex_cfg ''mail'' = Some ''Mail''" by (simp add: ex_cfg_def)
  have h2: "data ex_state = Some ex_df" by (simp add: ex_state_def)
  have h3: "index_of (df_columns ex_df) ''Mail'' = Some 0" by (simp add: ex_df_def)
  have "series_lower ex_lib ''Bob@X.org'' \<noteq> str_lower ex_lib ''carol@x.org''"
    and "series_lower ex_lib ''amy@x.org'' \<noteq> str_lower ex_lib ''carol@x.org''"
    and "series_lower ex_lib ''BOB@x.org'' \<noteq> str_lower ex_lib ''carol@x.org''"
    by code_simp+
  then have h4: "\<forall>row \<in> set (df_rows ex_df). \<forall>m. 0 < length row \<and> row ! 0 = JStr m \<longrightarrow>
       series_lower ex_lib m \<noteq> str_lower ex_lib ''carol@x.org''"
    by (simp add: ex_df_def)
  have h5: "matching_rows ex_lib ex_df 0 ''carol@x.org'' = []" by code_simp
  from update_data_no_match[OF h1 h2 h3 h4] h1 h2 h3 h5 show ?thesis by simp
qed



text \<open>
  C6. A call of \<open>update_data\<close> that returns, on a table where at least one row matches,
  adds to \<open>updated_rows\<close> the number of matched rows, whatever was written to the cells.
\<close>

theorem update_data_counts_matched_rows:
  assumes "update_data lib cfg email thread_data an s = (Inr (), s')"
      and "columns cfg ''mail'' = Some mail_col"
      and "data s = Some df"
      and "index_of (df_columns df) mail_col = Some k"
      and "matching_rows lib df k email \<noteq> []"
  shows "updated_rows s' = updated_rows s + int (length (matching_rows lib df k email))"
proof -
  from update_data_success[OF assms] obtain s1 where
    u: "update_rows lib cfg an (matching_rows lib df k email) s = (Inr (), s1)"
    and e: "s' = s1\<lparr>updated_rows := updated_rows s1 + int (length (matching_rows lib df k email))\<rparr>"
    by blast
  from update_rows_stats[OF u] e show ?thesis by simp
qed

theorem update_data_counts_matched_rows_witness:
  "update_data ex_lib ex_cfg ''bob@x.org'' () ex_analysis ex_state = (Inr (), ex_state_after) \<and>
   columns ex_cfg ''mail'' = Some ''Mail'' \<and> data ex_state = Some ex_df \<and>
   index_of (df_columns ex_df) ''Mail'' = Some 0 \<and>
   matching_rows ex_lib ex_df 0 ''bob@x.org'' = [0, 2] \<and>
   updated_rows ex_state_after = updated_rows ex_state + 2"
proof -
  have h1: "update_data ex_lib ex_cfg ''bob@x.org'' () ex_analysis ex_state = (Inr (), ex_state_after)"
    by code_simp
  have h2: "columns ex_cfg ''mail'' = Some ''Mail''" by (simp add: ex_cfg_def)
  have h3: "data ex_state = Some ex_df" by (simp add: ex_state_def)
  have h4: "index_of (df_columns ex_df) ''Mail'' = Some 0" by (simp add: ex_df_def)
  have h5: "matching_rows ex_lib ex_df 0 ''bob@x.org'' = [0, 2]" by code_simp
  then have h6: "matching_rows ex_lib ex_df 0 ''bob@x.org'' \<noteq> []" by simp
  from update_data_counts_matched_rows[OF h1 h2 h3 h4 h6] h1 h2 h3 h4 h5 show ?thesis by simp
qed
section \<open>Facts about cleanup_old_backups\<close>

text \<open>
  C9. When no deletion fails, \<open>cleanup_old_backups\<close> returns and leaves in the folder
  exactly the entries that are not files or whose age in whole days is at most
  \<open>keep_days\<close>: every file older than that, and nothing else, is deleted (and logged).
\<close>

theorem cleanup_old_backups_deletes_older_files:
  assumes "\<forall>f \<in> set backup_dir.
             entry_is_file f \<and> file_age_days now (entry_mtime f) > backup_keep_days cfg \<longrightarrow>
             unlink (entry_name f) = None"
  shows "cleanup_old_backups cfg now unlink backup_dir s =
           (Inr (),
            filter (\<lambda>f. \<not> entry_is_file f \<or>
                         file_age_days now (entry_mtime f) \<le> backup_keep_days cfg) backup_dir,
            s\<lparr>log := log s @
                 map (\<lambda>f. (INFO, DeletedOldBackup (entry_name f)))
                   (filter (\<lambda>f. entry_is_file f \<and>
                                 file_age_days now (entry_mtime f) > backup_keep_days cfg)
                      backup_dir)\<rparr>)"
proof -
  have "cleanup_loop cfg now unlink backup_dir s =
           (Inr (),
            filter (\<lambda>f. \<not> entry_is_file f \<or>
                         file_age_days now (entry_mtime f) \<le> backup_keep_days cfg) backup_dir,
            s\<lparr>log := log s @
                 map (\<lambda>f. (INFO, DeletedOldBackup (entry_name f)))
                   (filter (\<lambda>f. entry_is_file f \<and>
                                 file_age_days now (entry_mtime f) > backup_keep_days cfg)
                      backup_dir)\<rparr>)"
    using assms
  proof (induction backup_dir arbitrary: s)
    case Nil
    then show ?case by simp
  next
    case (Cons f fs)
    then show ?case by (auto simp: not_le)
  qed
  then show ?thesis by (simp add: cleanup_old_backups_def)
qed

theorem cleanup_old_backups_deletes_older_files_witness:
  "file_age_days ex_now (2 * 86400000000) = 8 \<and>
   file_age_days ex_now (2 * 86400000000 + 3600000000) = 7 \<and>
   cleanup_old_backups ex_cfg ex_now (\<lambda>p. None) ex_backup_dir ex_state =
     (Inr (),
      [\<lparr>entry_name = ''data_backup_2.xlsx'', entry_is_file = True,
         entry_mtime = 2 * 86400000000 + 3600000000\<rparr>,
       \<lparr>entry_name = ''old'', entry_is_file = False, entry_mtime = 0\<rparr>,
       \<lparr>entry_name = ''data_backup_3.xlsx'', entry_is_file = True,
         entry_mtime = 10 * 86400000000 - 3600000000\<rparr>],
      ex_state\<lparr>log := [(INFO, DeletedOldBackup ''data_backup_1.xlsx'')]\<rparr>)"
proof -
  have a: "file_age_days ex_now (2 * 86400000000) = 8"
    and b: "file_age_days ex_now (2 * 86400000000 + 3600000000) = 7"
    and c: "file_age_days ex_now 0 = 10"
    and d: "file_age_days ex_now (10 * 86400000000 - 3600000000) = 0"
    by (simp_all add: file_age_days_def ex_now_def)
  have k: "backup_keep_days ex_cfg = 7" by (simp add: ex_cfg_def)
  have h: "\<forall>f \<in> set ex_backup_dir.
             entry_is_file f \<and> file_age_days ex_now (entry_mtime f) > backup_keep_days ex_cfg \<longrightarrow>
             (\<lambda>p. None :: exn option) (entry_name f) = None"
    by simp
  have l: "log ex_state = []" by (simp add: ex_state_def)
  from cleanup_old_backups_deletes_older_files[OF h, of ex_state] a b c d k l
  show ?thesis by (simp add: ex_backup_dir_def)
qed

section \<open>Facts about the body of a message\<close>

text \<open>
  C2, as the source has it. On a multipart message, \<open>_get_email_body\<close> returns the decoded
  payload of the first part of the walk that is a text/plain or text/html part without
  \<open>attachment\<close> in its disposition, whichever of the two types that part has: the plain
  text when such a text/plain part comes before every such text/html part, the HTML when
  the text/html part comes first.
\<close>

theorem get_email_body_first_match:
  assumes "is_multipart msg"
      and "walk msg = before @ part # rest"
      and "\<forall>q \<in> set before.
             \<not> ((get_content_type q = ''text/plain'' \<or> get_content_type q = ''text/html'') \<and>
                \<not> contains ''attachment'' (str_of_header (get_disposition q)))"
      and "get_content_type part = ''text/plain'' \<or> get_content_type part = ''text/html''"
      and "\<not> contains ''attachment'' (str_of_header (get_disposition part))"
      and "payload_decode part = Inr text"
  shows "get_email_body msg s = (Some text, s)"
proof -
  have "body_loop (before @ part # rest) = Inr (Some text)"
    using assms(3-6)
  proof (induction before)
    case Nil
    then show ?case by (auto simp: Let_def)
  next
    case (Cons q qs)
    then show ?case by (auto simp: Let_def)
  qed
  with assms(1,2) show ?thesis
    by (simp add: get_email_body_def get_email_body_try_def)
qed

theorem get_email_body_first_match_witness:
  "get_email_body ex_plain_first ex_state = (Some ''hello'', ex_state) \<and>
   get_email_body ex_html_first ex_state = (Some ''<p>hello</p>'', ex_state)"
proof -
  let ?att = "Single ''text/plain'' (Some ''attachment; filename=notes.txt'') (Inr ''notes'')"
  let ?alt = "Multipart ''multipart/alternative'' None
          [Single ''text/plain'' None (Inr ''hello''),
           Single ''text/html'' None (Inr ''<p>hello</p>'')]"
  have c1: "contains ''attachment'' ''attachment; filename=notes.txt''" by code_simp
  have c2: "\<not> contains ''attachment'' ''None''" by code_simp
  have m1: "is_multipart ex_plain_first" by (simp add: ex_plain_first_def)
  have w1: "walk ex_plain_first =
      [ex_plain_first, ?att, ?alt] @ Single ''text/plain'' None (Inr ''hello'') #
      [Single ''text/html'' None (Inr ''<p>hello</p>'')]"
    by (simp add: ex_plain_first_def)
  have b1: "\<forall>q \<in> set [ex_plain_first, ?att, ?alt].
             \<not> ((get_content_type q = ''text/plain'' \<or> get_content_type q = ''text/html'') \<and>
                \<not> contains ''attachment'' (str_of_header (get_disposition q)))"
    using c1 by (simp add: ex_plain_first_def)
  have p1: "get_email_body ex_plain_first ex_state = (Some ''hello'', ex_state)"
    by (rule get_email_body_first_match[OF m1 w1 b1]) (simp_all add: c2)
  have m2: "is_multipart ex_html_first" by (simp add: ex_html_first_def)
  have w2: "walk ex_html_first =
      [ex_html_first] @ Single ''text/html'' None (Inr ''<p>hello</p>'') #
      [Single ''text/plain'' None (Inr ''hello'')]"
    by (simp add: ex_html_first_def)
  have b2: "\<forall>q \<in> set [ex_html_first].
             \<not> ((get_content_type q = ''text/plain'' \<or> get_content_type q = ''text/html'') \<and>
                \<not> contains ''attachment'' (str_of_header (get_disposition q)))"
    by (simp add: ex_html_first_def)
  have p2: "get_email_body ex_html_first ex_state = (Some ''<p>hello</p>'', ex_state)"
    by (rule get_email_body_first_match[OF m2 w2 b2]) (simp_all add: c2)
  from p1 p2 show ?thesis by simp
qed

text \<open>
  C2 as stated fails: with the HTML part first, a message that has both a plain-text and an
  HTML part, neither an attachment, yields the HTML.
\<close>

theorem get_email_body_html_first_counterexample:
  "is_multipart ex_html_first \<and>
   Single ''text/plain'' None (Inr ''hello'') \<in> set (walk ex_html_first) \<and>
   Single ''text/html'' None (Inr ''<p>hello</p>'') \<in> set (walk ex_html_first) \<and>
   fst (get_email_body ex_html_first ex_state) = Some ''<p>hello</p>'' \<and>
   fst (get_email_body ex_html_first ex_state) \<noteq> Some ''hello''"
  by code_simp
section \<open>Facts about fetching\<close>


lemma get_email_body_frame:
  "get_email_body msg s = (b, s') \<Longrightarrow>
     processed_emails s' = processed_emails s \<and> marked_read s' = marked_read s"
  by (auto simp: get_email_body_def split: sum.splits)

lemma parse_email_frame:
  "parse_email msg email_id s = (p, s') \<Longrightarrow>
     processed_emails s' = processed_emails s \<and> marked_read s' = marked_read s"
  by (auto simp: parse_email_def split: sum.splits prod.splits dest: get_email_body_frame)

lemma fetch_loop_answers:
  assumes "\<forall>email_id \<in> set ids. \<not> fetch_raises conn folder email_id"
  shows "\<exists>xs s'. fetch_loop conn folder ids acc s = (Inr (acc @ xs), s') \<and>
           length xs = length (filter (fetch_appends conn folder) ids) \<and>
           processed_emails s' = processed_emails s + int (length xs) \<and>
           marked_read s' = marked_read s"
  using assms
proof (induction ids arbitrary: acc s)
  case Nil
  then show ?case by simp
next
  case (Cons email_id ids)
  from Cons.prems have nr: "\<not> fetch_raises conn folder email_id"
    and rest: "\<forall>i \<in> set ids. \<not> fetch_raises conn folder i"
    by simp_all
  from nr obtain r where fr: "conn_fetch conn folder email_id = Inr r"
    by (cases "conn_fetch conn folder email_id") (auto simp: fetch_raises_def)
  obtain status fetched where r: "r = (status, fetched)" by (cases r)
  from fr r have f: "conn_fetch conn folder email_id = Inr (status, fetched)" by simp
  from nr f have ok: "status = ''OK'' \<longrightarrow> fetched \<noteq> None"
    by (simp add: fetch_raises_def)
  show ?case
  proof (cases "status = ''OK''")
    case False
    with f have na: "\<not> fetch_appends conn folder email_id" by (simp add: fetch_appends_def)
    from Cons.IH[OF rest, of acc "s\<lparr>log := log s @ [(ERROR, FetchFailed email_id)]\<rparr>"]
    obtain xs s' where
      "fetch_loop conn folder ids acc (s\<lparr>log := log s @ [(ERROR, FetchFailed email_id)]\<rparr>) =
         (Inr (acc @ xs), s')"
      "length xs = length (filter (fetch_appends conn folder) ids)"
      "processed_emails s' = processed_emails s + int (length xs)"
      "marked_read s' = marked_read s"
      by auto
    with f False na show ?thesis by simp
  next
    case True
    with ok obtain msg where m: "fetched = Some msg" by auto
    from f True m have ap: "fetch_appends conn folder email_id" by (simp add: fetch_appends_def)
    obtain p s1 where p: "parse_email msg email_id s = (p, s1)"
      by (cases "parse_email msg email_id s")
    from Cons.IH[OF rest, of "acc @ [p]" "s1\<lparr>processed_emails := processed_emails s1 + 1\<rparr>"]
    obtain xs s' where r:
      "fetch_loop conn folder ids (acc @ [p]) (s1\<lparr>processed_emails := processed_emails s1 + 1\<rparr>) =
         (Inr ((acc @ [p]) @ xs), s')"
      "length xs = length (filter (fetch_appends conn folder) ids)"
      "processed_emails s' = processed_emails s1 + 1 + int (length xs)"
      "marked_read s' = marked_read s1"
      by auto
    from r f True m p ap parse_email_frame[OF p]
    have "fetch_loop conn folder (email_id # ids) acc s = (Inr (acc @ (p # xs)), s') \<and>
           length (p # xs) = length (filter (fetch_appends conn folder) (email_id # ids)) \<and>
           processed_emails s' = processed_emails s + int (length (p # xs)) \<and>
           marked_read s' = marked_read s"
      by simp
    then show ?thesis by blast
  qed
qed

lemma fetch_loop_raises:
  assumes "\<forall>email_id \<in> set good. \<not> fetch_raises conn folder email_id"
      and "fetch_raises conn folder bad"
  shows "\<exists>e s'. fetch_loop conn folder (good @ bad # rest) acc s = (Inl e, s') \<and>
           processed_emails s' =
             processed_emails s + int (length (filter (fetch_appends conn folder) good))"
  using assms(1)
proof (induction good arbitrary: acc s)
  case Nil
  from assms(2) show ?case
    by (auto simp: fetch_raises_def split: sum.splits prod.splits)
next
  case (Cons email_id ids)
  from Cons.prems have nr: "\<not> fetch_raises conn folder email_id"
    and rest: "\<forall>i \<in> set ids. \<not> fetch_raises conn folder i"
    by simp_all
  from nr obtain r where fr: "conn_fetch conn folder email_id = Inr r"
    by (cases "conn_fetch conn folder email_id") (auto simp: fetch_raises_def)
  obtain status fetched where r: "r = (status, fetched)" by (cases r)
  from fr r have f: "conn_fetch conn folder email_id = Inr (status, fetched)" by simp
  from nr f have ok: "status = ''OK'' \<longrightarrow> fetched \<noteq> None"
    by (simp add: fetch_raises_def)
  show ?case
  proof (cases "status = ''OK''")
    case False
    with f have na: "\<not> fetch_appends conn folder email_id" by (simp add: fetch_appends_def)
    from Cons.IH[OF rest, of acc "s\<lparr>log := log s @ [(ERROR, FetchFailed email_id)]\<rparr>"]
    obtain e s' where
      "fetch_loop conn folder (ids @ bad # rest) acc
         (s\<lparr>log := log s @ [(ERROR, FetchFailed email_id)]\<rparr>) = (Inl e, s')"
      "processed_emails s' =
         processed_emails s + int (length (filter (fetch_appends conn folder) ids))"
      by auto
    with f False na show ?thesis by simp
  next
    case True
    with ok obtain msg where m: "fetched = Some msg" by auto
    from f True m have ap: "fetch_appends conn folder email_id" by (simp add: fetch_appends_def)
    obtain p s1 where p: "parse_email msg email_id s = (p, s1)"
      by (cases "parse_email msg email_id s")
    from Cons.IH[OF rest, of "acc @ [p]" "s1\<lparr>processed_emails := processed_emails s1 + 1\<rparr>"]
    obtain e s' where r:
      "fetch_loop conn folder (ids @ bad # rest) (acc @ [p])
         (s1\<lparr>processed_emails := processed_emails s1 + 1\<rparr>) = (Inl e, s')"
      "processed_emails s' =
         processed_emails s1 + 1 + int (length (filter (fetch_appends conn folder) ids))"
      by auto
    from r f True m p ap parse_email_frame[OF p]
    have "fetch_loop conn folder ((email_id # ids) @ bad # rest) acc s = (Inl e, s') \<and>
           processed_emails s' =
             processed_emails s +
             int (length (filter (fetch_appends conn folder) (email_id # ids)))"
      by simp
    then show ?thesis by blast
  qed
qed


text \<open>
  C7, as the source has it. An exception raised anywhere in the body of
  \<open>fetch_sent_emails\<close> or of \<open>fetch_replies\<close> is caught: the function returns the empty
  list, logs the exception and adds one to \<open>errors\<close>. So it is when \<open>search\<close> raises, and
  when the first \<open>fetch\<close> raises. A \<open>search\<close> that answers with a status other than \<open>OK\<close>
  is not counted: the function returns the empty list with a warning, and \<open>errors\<close> is as
  it was. A \<open>fetch\<close> that answers with a status other than \<open>OK\<close> is logged and the
  loop goes on with the next id, the list and the counters as they were.
\<close>

theorem fetch_exceptions_are_caught:
  "(\<forall>e s1. fetch_sent_emails_try lib icfg connection s = (Inl e, s1) \<longrightarrow>
      fetch_sent_emails lib icfg connection s =
        ([], s1\<lparr>log := log s1 @ [(ERROR, FetchError e)], errors := errors s1 + 1\<rparr>)) \<and>
   (\<forall>e s1. fetch_replies_try icfg connection sent_email s = (Inl e, s1) \<longrightarrow>
      fetch_replies icfg connection sent_email s =
        ([], s1\<lparr>log := log s1 @ [(ERROR, FetchError e)], errors := errors s1 + 1\<rparr>)) \<and>
   (\<forall>conn host e.
      connection = Some conn \<and> imap_host icfg = Some host \<and>
      conn_select conn (sent_folder lib host) = None \<and>
      conn_search conn (sent_folder lib host) ''ALL'' = Inl e \<longrightarrow>
      fetch_sent_emails lib icfg connection s =
        ([], s\<lparr>log := log s @ [(ERROR, FetchError e)], errors := errors s + 1\<rparr>)) \<and>
   (\<forall>conn host email_id ids e.
      connection = Some conn \<and> imap_host icfg = Some host \<and>
      conn_select conn (sent_folder lib host) = None \<and>
      conn_search conn (sent_folder lib host) ''ALL'' = Inr (''OK'', email_id # ids) \<and>
      conn_fetch conn (sent_folder lib host) email_id = Inl e \<longrightarrow>
      fetch_sent_emails lib icfg connection s =
        ([], s\<lparr>log := log s @ [(ERROR, FetchError e)], errors := errors s + 1\<rparr>)) \<and>
   (\<forall>conn host status ids.
      connection = Some conn \<and> imap_host icfg = Some host \<and>
      conn_select conn (sent_folder lib host) = None \<and>
      conn_search conn (sent_folder lib host) ''ALL'' = Inr (status, ids) \<and> status \<noteq> ''OK'' \<longrightarrow>
      fetch_sent_emails lib icfg connection s =
        ([], s\<lparr>log := log s @ [(WARNING, NoSentEmails)]\<rparr>)) \<and>
   (\<forall>conn folder email_id ids acc status fetched.
      conn_fetch conn folder email_id = Inr (status, fetched) \<and> status \<noteq> ''OK'' \<longrightarrow>
      fetch_loop conn folder (email_id # ids) acc s =
        fetch_loop conn folder ids acc (s\<lparr>log := log s @ [(ERROR, FetchFailed email_id)]\<rparr>))"
proof (intro conjI allI impI)
  fix e s1
  assume "fetch_sent_emails_try lib icfg connection s = (Inl e, s1)"
  then show "fetch_sent_emails lib icfg connection s =
        ([], s1\<lparr>log := log s1 @ [(ERROR, FetchError e)], errors := errors s1 + 1\<rparr>)"
    by (simp add: fetch_sent_emails_def)
next
  fix e s1
  assume "fetch_replies_try icfg connection sent_email s = (Inl e, s1)"
  then show "fetch_replies icfg connection sent_email s =
        ([], s1\<lparr>log := log s1 @ [(ERROR, FetchError e)], errors := errors s1 + 1\<rparr>)"
    by (simp add: fetch_replies_def)
next
  fix conn host e
  assume "connection = Some conn \<and> imap_host icfg = Some host \<and>
      conn_select conn (sent_folder lib host) = None \<and>
      conn_search conn (sent_folder lib host) ''ALL'' = Inl e"
  then show "fetch_sent_emails lib icfg connection s =
        ([], s\<lparr>log := log s @ [(ERROR, FetchError e)], errors := errors s + 1\<rparr>)"
    by (simp add: fetch_sent_emails_def fetch_sent_emails_try_def)
next
  fix conn host email_id ids e
  assume "connection = Some conn \<and> imap_host icfg = Some host \<and>
      conn_select conn (sent_folder lib host) = None \<and>
      conn_search conn (sent_folder lib host) ''ALL'' = Inr (''OK'', email_id # ids) \<and>
      conn_fetch conn (sent_folder lib host) email_id = Inl e"
  then show "fetch_sent_emails lib icfg connection s =
        ([], s\<lparr>log := log s @ [(ERROR, FetchError e)], errors := errors s + 1\<rparr>)"
    by (simp add: fetch_sent_emails_def fetch_sent_emails_try_def)
next
  fix conn host status ids
  assume "connection = Some conn \<and> imap_host icfg = Some host \<and>
      conn_select conn (sent_folder lib host) = None \<and>
      conn_search conn (sent_folder lib host) ''ALL'' = Inr (status, ids) \<and> status \<noteq> ''OK''"
  then show "fetch_sent_emails lib icfg connection s =
        ([], s\<lparr>log := log s @ [(WARNING, NoSentEmails)]\<rparr>)"
    by (simp add: fetch_sent_emails_def fetch_sent_emails_try_def)
next
  fix conn :: imap_conn and folder email_id ids acc status fetched
  assume "conn_fetch conn folder email_id = Inr (status, fetched) \<and> status \<noteq> ''OK''"
  then show "fetch_loop conn folder (email_id # ids) acc s =
        fetch_loop conn folder ids acc (s\<lparr>log := log s @ [(ERROR, FetchFailed email_id)]\<rparr>)"
    by simp
qed

theorem fetch_exceptions_are_caught_witness:
  "fetch_sent_emails_try ex_lib ex_icfg None ex_state = (Inl (AttributeError ''select''), ex_state) \<and>
   fetch_sent_emails ex_lib ex_icfg None ex_state =
     ([], ex_state\<lparr>log := [(ERROR, FetchError (AttributeError ''select''))], errors := 1\<rparr>) \<and>
   fetch_replies_try (ex_icfg\<lparr>imap_folder := Some ''Junk''\<rparr>) (Some ex_conn)
       (Some (ex_parsed ''7'')) ex_state = (Inl (IMAPError ''search''), ex_state) \<and>
   fetch_replies (ex_icfg\<lparr>imap_folder := Some ''Junk''\<rparr>) (Some ex_conn)
       (Some (ex_parsed ''7'')) ex_state =
     ([], ex_state\<lparr>log := [(ERROR, FetchError (IMAPError ''search''))], errors := 1\<rparr>)"
proof -
  have t1: "fetch_sent_emails_try ex_lib ex_icfg None ex_state =
              (Inl (AttributeError ''select''), ex_state)"
    by (simp add: fetch_sent_emails_try_def)
  have t2: "fetch_replies_try (ex_icfg\<lparr>imap_folder := Some ''Junk''\<rparr>) (Some ex_conn)
       (Some (ex_parsed ''7'')) ex_state = (Inl (IMAPError ''search''), ex_state)"
    by code_simp
  have z: "log ex_state = []" "errors ex_state = 0" by (simp_all add: ex_state_def)
  note th = fetch_exceptions_are_caught[where lib = ex_lib and icfg = ex_icfg
        and connection = None and s = ex_state]
    fetch_exceptions_are_caught[where lib = ex_lib
        and icfg = "ex_icfg\<lparr>imap_folder := Some ''Junk''\<rparr>" and connection = "Some ex_conn"
        and s = ex_state and sent_email = "Some (ex_parsed ''7'')"]
  from th t1 t2 z show ?thesis by simp
qed

text \<open>
  C7 as stated fails. A reply that cannot be fetched (status \<open>NO\<close>) is skipped: the other
  reply is returned and \<open>errors\<close> is not touched. A search refused with status \<open>NO\<close> gives
  the empty list, and \<open>errors\<close> is not touched either.
\<close>

theorem fetch_failure_not_counted_counterexample:
  "conn_fetch ex_conn ''INBOX'' ''2'' = Inr (''NO'', None) \<and>
   fst (fetch_replies ex_icfg (Some ex_conn) (Some (ex_parsed ''7'')) ex_state) =
     [Some (ex_parsed ''1'')] \<and>
   errors (snd (fetch_replies ex_icfg (Some ex_conn) (Some (ex_parsed ''7'')) ex_state)) =
     errors ex_state \<and>
   conn_search ex_conn ''Archive'' (references_criterion (Some ''<m1@x.org>'')) = Inr (''NO'', []) \<and>
   fst (fetch_replies (ex_icfg\<lparr>imap_folder := Some ''Archive''\<rparr>) (Some ex_conn)
          (Some (ex_parsed ''7'')) ex_state) = [] \<and>
   errors (snd (fetch_replies (ex_icfg\<lparr>imap_folder := Some ''Archive''\<rparr>) (Some ex_conn)
          (Some (ex_parsed ''7'')) ex_state)) = errors ex_state"
  by code_simp
section \<open>Facts about the orchestrator\<close>

lemma update_data_frame:
  assumes "update_data lib cfg email thread_data an s = (r, s')"
  shows "disk s' = disk s \<and> save_calls s' = save_calls s \<and>
         processed_emails s' = processed_emails s \<and> marked_read s' = marked_read s"
proof -
  obtain r1 s1 where t: "update_data_try lib cfg email an s = (r1, s1)"
    by (cases "update_data_try lib cfg email an s")
  have "disk s1 = disk s \<and> save_calls s1 = save_calls s \<and>
         processed_emails s1 = processed_emails s \<and> marked_read s1 = marked_read s"
    using t
    by (auto simp: update_data_try_def
        split: option.splits if_splits prod.splits sum.splits dest!: update_rows_stats)
  with assms t show ?thesis
    by (auto simp: update_data_def split: sum.splits)
qed

lemma process_message_frame:
  assumes "process_message lib ih lm cfg thread message s = (r, s')"
  shows "disk s' = disk s \<and> save_calls s' = save_calls s"
proof -
  have u: "disk s1 = disk s \<and> save_calls s1 = save_calls s"
    if "update_data lib cfg sender thread an s = (r1, s1)" for sender an r1 s1
    using update_data_frame[OF that] by simp
  from assms show ?thesis
    by (auto simp: process_message_def mark_as_read_def
        split: if_splits option.splits sum.splits prod.splits dest!: u)
qed

lemma process_messages_frame:
  "process_messages lib ih lm cfg thread messages s = (r, s') \<Longrightarrow>
     disk s' = disk s \<and> save_calls s' = save_calls s"
proof (induction messages arbitrary: s)
  case Nil
  then show ?case by simp
next
  case (Cons m ms)
  obtain r1 s1 where p: "process_message lib ih lm cfg thread m s = (r1, s1)"
    by (cases "process_message lib ih lm cfg thread m s")
  show ?case
  proof (cases r1)
    case (Inl e)
    with Cons.prems p process_message_frame[OF p] show ?thesis by simp
  next
    case (Inr u)
    with Cons.prems p have "process_messages lib ih lm cfg thread ms s1 = (r, s')" by simp
    from Cons.IH[OF this] process_message_frame[OF p] show ?thesis by simp
  qed
qed

lemma process_threads_frame:
  "process_threads lib ih lm cfg threads s = (r, s') \<Longrightarrow>
     disk s' = disk s \<and> save_calls s' = save_calls s"
proof (induction threads arbitrary: s)
  case Nil
  then show ?case by simp
next
  case (Cons t ts)
  show ?case
  proof (cases "t_messages t")
    case None
    with Cons.prems show ?thesis by simp
  next
    case (Some ms)
    obtain r1 s1 where p: "process_messages lib ih lm cfg t ms s = (r1, s1)"
      by (cases "process_messages lib ih lm cfg t ms s")
    show ?thesis
    proof (cases r1)
      case (Inl e)
      with Cons.prems Some p process_messages_frame[OF p] show ?thesis by simp
    next
      case (Inr u)
      with Cons.prems Some p have "process_threads lib ih lm cfg ts s1 = (r, s')" by simp
      from Cons.IH[OF this] process_messages_frame[OF p] show ?thesis by simp
    qed
  qed
qed

lemma process_emails_frame:
  assumes "process_emails lib ih lm cfg s = (r, s')"
  shows "disk s' = disk s \<and> save_calls s' = save_calls s"
proof -
  let ?s0 = "s\<lparr>log := log s @ [(INFO, StartProcessing), (INFO, ProcessingAsUser)]\<rparr>"
  obtain r1 s1 where t: "process_emails_try lib ih lm cfg ?s0 = (r1, s1)"
    by (cases "process_emails_try lib ih lm cfg ?s0")
  have "disk s1 = disk ?s0 \<and> save_calls s1 = save_calls ?s0"
    using t
    by (auto simp: process_emails_try_def split: if_splits sum.splits
        dest!: process_threads_frame)
  with assms t show ?thesis
    by (auto simp: process_emails_def split: sum.splits)
qed

lemma main_except_frame:
  "main_except e s = (code, s') \<Longrightarrow> code = 1 \<and> disk s' = disk s \<and> save_calls s' = save_calls s"
  by (cases e) auto

lemma process_message_on_error:
  assumes "\<not> m_processed message"
      and "''analyze_email'' \<in> set (lm_attrs lm)"
      and "m_body message = Some body"
      and "lm_analyze_email lm body (t_context thread) = Inr analysis_result"
      and "analysis_result ''error'' = Some err"
  shows "process_message lib ih lm cfg thread message s =
           (Inr (), s\<lparr>log := log s @ [(ERROR, AnalysisFailed err)]\<rparr>)"
  using assms by (simp add: process_message_def)

lemma process_message_on_result:
  assumes "\<not> m_processed message"
      and "''analyze_email'' \<in> set (lm_attrs lm)"
      and "m_body message = Some body"
      and "lm_analyze_email lm body (t_context thread) = Inr analysis_result"
      and "analysis_result ''error'' = None"
      and "m_from message = Some sender"
      and "update_data lib cfg sender thread analysis_result s = (Inr (), s1)"
      and "''mark_as_read'' \<in> set (ih_attrs ih)"
      and "m_message_id message = Some message_id"
      and "ih_mark_as_read ih message_id = None"
  shows "process_message lib ih lm cfg thread message s =
           (Inr (), s1\<lparr>marked_read := marked_read s @ [message_id],
                       processed_emails := processed_emails s + 1\<rparr>)"
proof -
  from update_data_frame[OF assms(7)] have
    f: "marked_read s1 = marked_read s" "processed_emails s1 = processed_emails s"
    by simp_all
  from assms f show ?thesis
    by (simp add: process_message_def mark_as_read_def)
qed

lemma process_messages_append:
  "process_messages lib ih lm cfg thread (xs @ ys) s =
     (case process_messages lib ih lm cfg thread xs s of
        (Inl e, s') \<Rightarrow> (Inl e, s')
      | (Inr u, s') \<Rightarrow> process_messages lib ih lm cfg thread ys s')"
  by (induction xs arbitrary: s) (auto split: sum.splits prod.splits)

lemma process_threads_append:
  "process_threads lib ih lm cfg (xs @ ys) s =
     (case process_threads lib ih lm cfg xs s of
        (Inl e, s') \<Rightarrow> (Inl e, s')
      | (Inr u, s') \<Rightarrow> process_threads lib ih lm cfg ys s')"
  by (induction xs arbitrary: s) (auto split: sum.splits prod.splits option.splits)

lemma process_emails_reaches:
  assumes "''get_email_threads'' \<in> set (ih_attrs ih)"
      and "ih_get_email_threads ih = Inr (earlier_threads @ thread # later_threads)"
      and "t_messages thread = Some (earlier @ message # later)"
      and "process_threads lib ih lm cfg earlier_threads
             (s\<lparr>log := log s @ [(INFO, StartProcessing), (INFO, ProcessingAsUser)]\<rparr>) =
           (Inr (), s1)"
      and "process_messages lib ih lm cfg thread earlier s1 = (Inr (), s2)"
      and "process_message lib ih lm cfg thread message s2 = (Inr (), s3)"
  shows "process_emails lib ih lm cfg s =
           (case (case process_messages lib ih lm cfg thread later s3 of
                    (Inl e, s') \<Rightarrow> (Inl e, s')
                  | (Inr u, s') \<Rightarrow> process_threads lib ih lm cfg later_threads s') of
              (Inl e, s') \<Rightarrow>
                (Inl e, s'\<lparr>log := log s' @ [(ERROR, ProcessingError e)], errors := errors s' + 1\<rparr>)
            | (Inr u, s') \<Rightarrow> (Inr u, s'))"
proof -
  let ?s0 = "s\<lparr>log := log s @ [(INFO, StartProcessing), (INFO, ProcessingAsUser)]\<rparr>"
  have m: "process_messages lib ih lm cfg thread (earlier @ message # later) s1 =
             process_messages lib ih lm cfg thread later s3"
    by (simp add: process_messages_append assms(5,6))
  have t: "process_threads lib ih lm cfg (earlier_threads @ thread # later_threads) ?s0 =
             (case process_messages lib ih lm cfg thread later s3 of
                (Inl e, s') \<Rightarrow> (Inl e, s')
              | (Inr u, s') \<Rightarrow> process_threads lib ih lm cfg later_threads s')"
    by (simp add: process_threads_append assms(3,4) m)
  have "process_emails_try lib ih lm cfg ?s0 =
          process_threads lib ih lm cfg (earlier_threads @ thread # later_threads) ?s0"
    by (simp add: process_emails_try_def assms(1,2))
  with t show ?thesis by (simp add: process_emails_def)
qed

text \<open>
  C3. In a run of \<open>process_emails\<close> that reaches an unprocessed message whose analysis
  returns a result, all earlier threads and messages done and the state then \<open>s2\<close>: when
  the result has the key \<open>error\<close>, the run goes on with the later messages and threads
  from \<open>s2\<close> with one more log line and nothing else changed, so there was no table update
  and no read flag, and neither \<open>errors\<close> nor \<open>processed_emails\<close> moved; when it has not,
  \<open>update_data\<close> is called for the sender with that result and, that call and
  \<open>mark_as_read\<close> returning, the run goes on from the state \<open>update_data\<close> left, with the
  message id flagged read and \<open>processed_emails\<close> one higher.
\<close>

theorem process_emails_skips_logical_errors:
  assumes "''get_email_threads'' \<in> set (ih_attrs ih)"
      and "ih_get_email_threads ih = Inr (earlier_threads @ thread # later_threads)"
      and "t_messages thread = Some (earlier @ message # later)"
      and "process_threads lib ih lm cfg earlier_threads
             (s\<lparr>log := log s @ [(INFO, StartProcessing), (INFO, ProcessingAsUser)]\<rparr>) =
           (Inr (), s1)"
      and "process_messages lib ih lm cfg thread earlier s1 = (Inr (), s2)"
      and "\<not> m_processed message"
      and "''analyze_email'' \<in> set (lm_attrs lm)"
      and "m_body message = Some body"
      and "lm_analyze_email lm body (t_context thread) = Inr analysis_result"
  shows "let go_on = (\<lambda>after_message.
           case (case process_messages lib ih lm cfg thread later after_message of
                   (Inl e, s') \<Rightarrow> (Inl e, s')
                 | (Inr u, s') \<Rightarrow> process_threads lib ih lm cfg later_threads s') of
             (Inl e, s') \<Rightarrow>
               (Inl e, s'\<lparr>log := log s' @ [(ERROR, ProcessingError e)], errors := errors s' + 1\<rparr>)
           | (Inr u, s') \<Rightarrow> (Inr u, s'))
         in
         (\<forall>err. analysis_result ''error'' = Some err \<longrightarrow>
            process_emails lib ih lm cfg s =
              go_on (s2\<lparr>log := log s2 @ [(ERROR, AnalysisFailed err)]\<rparr>)) \<and>
         (\<forall>sender message_id s3.
            analysis_result ''error'' = None \<and> m_from message = Some sender \<and>
            update_data lib cfg sender thread analysis_result s2 = (Inr (), s3) \<and>
            ''mark_as_read'' \<in> set (ih_attrs ih) \<and> m_message_id message = Some message_id \<and>
            ih_mark_as_read ih message_id = None \<longrightarrow>
            process_emails lib ih lm cfg s =
              go_on (s3\<lparr>marked_read := marked_read s2 @ [message_id],
                         processed_emails := processed_emails s2 + 1\<rparr>))"
  unfolding Let_def
proof (intro conjI allI impI)
  fix err
  assume e: "analysis_result ''error'' = Some err"
  from process_emails_reaches[OF assms(1-5) process_message_on_error[OF assms(6-9) e]]
  show "process_emails lib ih lm cfg s =
          (case (case process_messages lib ih lm cfg thread later
                        (s2\<lparr>log := log s2 @ [(ERROR, AnalysisFailed err)]\<rparr>) of
                   (Inl e, s') \<Rightarrow> (Inl e, s')
                 | (Inr u, s') \<Rightarrow> process_threads lib ih lm cfg later_threads s') of
             (Inl e, s') \<Rightarrow>
               (Inl e, s'\<lparr>log := log s' @ [(ERROR, ProcessingError e)], errors := errors s' + 1\<rparr>)
           | (Inr u, s') \<Rightarrow> (Inr u, s'))" .
next
  fix sender message_id s3
  assume h: "analysis_result ''error'' = None \<and> m_from message = Some sender \<and>
            update_data lib cfg sender thread analysis_result s2 = (Inr (), s3) \<and>
            ''mark_as_read'' \<in> set (ih_attrs ih) \<and> m_message_id message = Some message_id \<and>
            ih_mark_as_read ih message_id = None"
  then have h1: "analysis_result ''error'' = None" and h2: "m_from message = Some sender"
    and h3: "update_data lib cfg sender thread analysis_result s2 = (Inr (), s3)"
    and h4: "''mark_as_read'' \<in> set (ih_attrs ih)"
    and h5: "m_message_id message = Some message_id"
    and h6: "ih_mark_as_read ih message_id = None"
    by simp_all
  from process_emails_reaches[OF assms(1-5)
      process_message_on_result[OF assms(6-9) h1 h2 h3 h4 h5 h6]]
  show "process_emails lib ih lm cfg s =
          (case (case process_messages lib ih lm cfg thread later
                        (s3\<lparr>marked_read := marked_read s2 @ [message_id],
                            processed_emails := processed_emails s2 + 1\<rparr>) of
                   (Inl e, s') \<Rightarrow> (Inl e, s')
                 | (Inr u, s') \<Rightarrow> process_threads lib ih lm cfg later_threads s') of
             (Inl e, s') \<Rightarrow>
               (Inl e, s'\<lparr>log := log s' @ [(ERROR, ProcessingError e)], errors := errors s' + 1\<rparr>)
           | (Inr u, s') \<Rightarrow> (Inr u, s'))" .
qed

theorem process_emails_skips_logical_errors_witness:
  "lm_analyze_email ex_lm ''first'' None = Inr ex_error_result \<and>
   ex_error_result ''error'' = Some (JStr ''model unavailable'') \<and>
   process_threads ex_lib ex_ih ex_lm ex_cfg [ex_thread1]
     (ex_state\<lparr>log := log ex_state @ [(INFO, StartProcessing), (INFO, ProcessingAsUser)]\<rparr>) =
     (Inr (), ex_run_skipped) \<and>
   lm_analyze_email ex_lm ''second'' None = Inr ex_analysis \<and>
   ex_analysis ''error'' = None \<and>
   update_data ex_lib ex_cfg ''bob@x.org'' ex_thread2 ex_analysis ex_run_skipped =
     (Inr (), ex_run_updated) \<and>
   process_emails ex_lib ex_ih ex_lm ex_cfg ex_state = (Inr (), ex_run_after) \<and>
   ex_run_after = ex_run_updated\<lparr>marked_read := [''<b@x.org>''], processed_emails := 1\<rparr>"
proof -
  let ?s0 = "ex_state\<lparr>log := log ex_state @ [(INFO, StartProcessing), (INFO, ProcessingAsUser)]\<rparr>"
  have g: "''get_email_threads'' \<in> set (ih_attrs ex_ih)" by (simp add: ex_ih_def)
  have an: "''analyze_email'' \<in> set (lm_attrs ex_lm)" by (simp add: ex_lm_def)
  have c1: "t_context ex_thread1 = None" and c2: "t_context ex_thread2 = None"
    by (simp_all add: ex_thread1_def ex_thread2_def)
  \<comment> \<open>the first message, whose analysis has the key \<open>error\<close>\<close>
  have a2: "ih_get_email_threads ex_ih = Inr ([] @ ex_thread1 # [ex_thread2])"
    by (simp add: ex_ih_def)
  have a3: "t_messages ex_thread1 = Some ([] @ ex_msg1 # [])" by (simp add: ex_thread1_def)
  have a4: "process_threads ex_lib ex_ih ex_lm ex_cfg [] ?s0 = (Inr (), ?s0)" by simp
  have a5: "process_messages ex_lib ex_ih ex_lm ex_cfg ex_thread1 [] ?s0 = (Inr (), ?s0)" by simp
  have a6: "\<not> m_processed ex_msg1" and a8: "m_body ex_msg1 = Some ''first''"
    by (simp_all add: ex_msg1_def)
  have a9: "lm_analyze_email ex_lm ''first'' (t_context ex_thread1) = Inr ex_error_result"
    by (simp add: ex_lm_def)
  have e1: "ex_error_result ''error'' = Some (JStr ''model unavailable'')"
    by (simp add: ex_error_result_def)
  note first = process_emails_skips_logical_errors[where lib = ex_lib and ih = ex_ih
      and lm = ex_lm and cfg = ex_cfg and s = ex_state and earlier_threads = "[]"
      and thread = ex_thread1 and later_threads = "[ex_thread2]" and earlier = "[]"
      and message = ex_msg1 and later = "[]", OF g a2 a3 a4 a5 a6 an a8 a9,
      unfolded Let_def, THEN conjunct1, rule_format, OF e1]
  have r1: "(case (case process_messages ex_lib ex_ih ex_lm ex_cfg ex_thread1 []
                         (ex_state\<lparr>log := log ex_state @
                              [(INFO, StartProcessing), (INFO, ProcessingAsUser)]\<rparr>
                          \<lparr>log := log (ex_state\<lparr>log := log ex_state @
                              [(INFO, StartProcessing), (INFO, ProcessingAsUser)]\<rparr>) @
                              [(ERROR, AnalysisFailed (JStr ''model unavailable''))]\<rparr>) of
                    (Inl e, s') \<Rightarrow> (Inl e, s')
                  | (Inr u, s') \<Rightarrow> process_threads ex_lib ex_ih ex_lm ex_cfg [ex_thread2] s') of
              (Inl e, s') \<Rightarrow>
                (Inl e, s'\<lparr>log := log s' @ [(ERROR, ProcessingError e)], errors := errors s' + 1\<rparr>)
            | (Inr u, s') \<Rightarrow> (Inr u, s')) = (Inr (), ex_run_after)"
    by code_simp
  from first r1 have p1: "process_emails ex_lib ex_ih ex_lm ex_cfg ex_state = (Inr (), ex_run_after)"
    by simp
  \<comment> \<open>the second message, whose analysis has not\<close>
  have b2: "ih_get_email_threads ex_ih = Inr ([ex_thread1] @ ex_thread2 # [])"
    by (simp add: ex_ih_def)
  have b3: "t_messages ex_thread2 = Some ([] @ ex_msg2 # [])" by (simp add: ex_thread2_def)
  have b4: "process_threads ex_lib ex_ih ex_lm ex_cfg [ex_thread1] ?s0 = (Inr (), ex_run_skipped)"
    by code_simp
  have b5: "process_messages ex_lib ex_ih ex_lm ex_cfg ex_thread2 [] ex_run_skipped =
              (Inr (), ex_run_skipped)"
    by simp
  have b6: "\<not> m_processed ex_msg2" and b8: "m_body ex_msg2 = Some ''second''"
    and f2: "m_from ex_msg2 = Some ''bob@x.org''"
    and i2: "m_message_id ex_msg2 = Some ''<b@x.org>''"
    by (simp_all add: ex_msg2_def)
  have b9: "lm_analyze_email ex_lm ''second'' (t_context ex_thread2) = Inr ex_analysis"
    by (simp add: ex_lm_def)
  have e2: "ex_analysis ''error'' = None" by (simp add: ex_analysis_def)
  have u2: "update_data ex_lib ex_cfg ''bob@x.org'' ex_thread2 ex_analysis ex_run_skipped =
              (Inr (), ex_run_updated)"
    by code_simp
  have m2: "''mark_as_read'' \<in> set (ih_attrs ex_ih)"
    and k2: "ih_mark_as_read ex_ih ''<b@x.org>'' = None"
    by (simp_all add: ex_ih_def)
  have h2: "ex_analysis ''error'' = None \<and> m_from ex_msg2 = Some ''bob@x.org'' \<and>
            update_data ex_lib ex_cfg ''bob@x.org'' ex_thread2 ex_analysis ex_run_skipped =
              (Inr (), ex_run_updated) \<and>
            ''mark_as_read'' \<in> set (ih_attrs ex_ih) \<and>
            m_message_id ex_msg2 = Some ''<b@x.org>'' \<and>
            ih_mark_as_read ex_ih ''<b@x.org>'' = None"
    using e2 f2 u2 m2 i2 k2 by simp
  note second = process_emails_skips_logical_errors[where lib = ex_lib and ih = ex_ih
      and lm = ex_lm and cfg = ex_cfg and s = ex_state and earlier_threads = "[ex_thread1]"
      and thread = ex_thread2 and later_threads = "[]" and earlier = "[]"
      and message = ex_msg2 and later = "[]", OF g b2 b3 b4 b5 b6 an b8 b9,
      unfolded Let_def, THEN conjunct2, rule_format, OF h2]
  have q: "ex_run_after = ex_run_updated\<lparr>marked_read := [''<b@x.org>''], processed_emails := 1\<rparr>"
    by (simp add: ex_run_after_def ex_run_updated_def)
  have z: "marked_read ex_run_skipped = []" "processed_emails ex_run_skipped = 0"
    by (simp_all add: ex_run_skipped_def)
  from second z q have p2: "process_emails ex_lib ex_ih ex_lm ex_cfg ex_state = (Inr (), ex_run_after)"
    by simp
  from p1 p2 a9 e1 b4 b9 e2 u2 q c1 c2 show ?thesis by simp
qed


text \<open>
  C8. An exception raised in the \<open>try\<close> block of \<open>process_emails\<close> is raised again by
  \<open>process_emails\<close>, with \<open>errors\<close> one higher than the block left it. When that happens
  in a run of \<open>main\<close> that has loaded the table, the process exits with code 1,
  \<open>save_data\<close> has not been entered, and the file holds the table it held at the start.
\<close>

theorem process_emails_reraises_without_saving:
  "(\<forall>e s1.
      process_emails_try lib ih lm cfg
        (s\<lparr>log := log s @ [(INFO, StartProcessing), (INFO, ProcessingAsUser)]\<rparr>) = (Inl e, s1) \<longrightarrow>
      process_emails lib ih lm cfg s =
        (Inl e, s1\<lparr>log := log s1 @ [(ERROR, ProcessingError e)], errors := errors s1 + 1\<rparr>)) \<and>
   (\<forall>e. fst (process_emails lib ih lm cfg (snd (load_data None (initial_state file)))) = Inl e \<longrightarrow>
      fst (main_from lib ih lm (Inr cfg) None write_error file) = 1 \<and>
      save_calls (snd (main_from lib ih lm (Inr cfg) None write_error file)) = 0 \<and>
      disk (snd (main_from lib ih lm (Inr cfg) None write_error file)) = file)"
proof (intro conjI allI impI)
  fix e s1
  assume "process_emails_try lib ih lm cfg
        (s\<lparr>log := log s @ [(INFO, StartProcessing), (INFO, ProcessingAsUser)]\<rparr>) = (Inl e, s1)"
  then show "process_emails lib ih lm cfg s =
        (Inl e, s1\<lparr>log := log s1 @ [(ERROR, ProcessingError e)], errors := errors s1 + 1\<rparr>)"
    by (simp add: process_emails_def)
next
  fix e
  assume a: "fst (process_emails lib ih lm cfg (snd (load_data None (initial_state file)))) = Inl e"
  define s0 where "s0 = snd (load_data None (initial_state file))"
  have l: "load_data None (initial_state file) = (Inr (), s0)"
    by (simp add: s0_def load_data_def)
  have l0: "disk s0 = file" "save_calls s0 = 0"
    by (simp_all add: s0_def load_data_def initial_state_def)
  obtain s2 where p: "process_emails lib ih lm cfg s0 = (Inl e, s2)"
    using a unfolding s0_def[symmetric] by (cases "process_emails lib ih lm cfg s0") auto
  obtain code s3 where m: "main_except e s2 = (code, s3)" by (cases "main_except e s2")
  have "main_from lib ih lm (Inr cfg) None write_error file = (code, s3)"
    by (simp add: main_from_def l p m)
  with main_except_frame[OF m] process_emails_frame[OF p] l0
  show "fst (main_from lib ih lm (Inr cfg) None write_error file) = 1"
    and "save_calls (snd (main_from lib ih lm (Inr cfg) None write_error file)) = 0"
    and "disk (snd (main_from lib ih lm (Inr cfg) None write_error file)) = file"
    by simp_all
qed

theorem process_emails_reraises_without_saving_witness:
  "process_emails ex_lib ex_ih_refused ex_lm ex_cfg (snd (load_data None (initial_state ex_df))) =
     (Inl (IMAPError ''store''),
      \<lparr>processed_emails = 0, updated_rows = 2, errors = 1,
       log = [(INFO, LoadedRows 3), (INFO, StartProcessing), (INFO, ProcessingAsUser),
              (ERROR, AnalysisFailed (JStr ''model unavailable'')),
              (INFO, UpdatedRow 0 ''status'' (JStr ''new'') (JStr ''replied'')),
              (ERROR, ProcessingError (IMAPError ''store''))],
       data = Some ex_df_after, disk = ex_df, save_calls = 0, marked_read = []\<rparr>) \<and>
   fst (main_from ex_lib ex_ih_refused ex_lm (Inr ex_cfg) None None ex_df) = 1 \<and>
   save_calls (snd (main_from ex_lib ex_ih_refused ex_lm (Inr ex_cfg) None None ex_df)) = 0 \<and>
   disk (snd (main_from ex_lib ex_ih_refused ex_lm (Inr ex_cfg) None None ex_df)) = ex_df"
proof -
  have p: "process_emails ex_lib ex_ih_refused ex_lm ex_cfg (snd (load_data None (initial_state ex_df))) =
     (Inl (IMAPError ''store''),
      \<lparr>processed_emails = 0, updated_rows = 2, errors = 1,
       log = [(INFO, LoadedRows 3), (INFO, StartProcessing), (INFO, ProcessingAsUser),
              (ERROR, AnalysisFailed (JStr ''model unavailable'')),
              (INFO, UpdatedRow 0 ''status'' (JStr ''new'') (JStr ''replied'')),
              (ERROR, ProcessingError (IMAPError ''store''))],
       data = Some ex_df_after, disk = ex_df, save_calls = 0, marked_read = []\<rparr>)"
    by code_simp
  then have f: "fst (process_emails ex_lib ex_ih_refused ex_lm ex_cfg
                  (snd (load_data None (initial_state ex_df)))) = Inl (IMAPError ''store'')"
    by simp
  from process_emails_reraises_without_saving[THEN conjunct2, rule_format, OF f,
      where write_error = None] p
  show ?thesis by simp
qed

text \<open>
  C1. The class \<open>IMAPHandler\<close> has no attribute \<open>get_email_threads\<close> and none named
  \<open>mark_as_read\<close>. So on an object of that class \<open>process_emails\<close> raises
  \<open>AttributeError\<close> before anything else happens, with \<open>errors\<close> one higher; and whatever
  the startup, the read and the write would do, \<open>main\<close> exits with code 1 without having
  entered \<open>save_data\<close> and with the file as it was.
\<close>

theorem process_emails_raises_on_IMAPHandler:
  assumes "ih_attrs ih = IMAPHandler_attrs"
  shows "''get_email_threads'' \<notin> set IMAPHandler_attrs \<and>
         ''mark_as_read'' \<notin> set IMAPHandler_attrs \<and>
         process_emails lib ih lm cfg s =
           (Inl (AttributeError ''get_email_threads''),
            s\<lparr>log := log s @ [(INFO, StartProcessing), (INFO, ProcessingAsUser),
                               (ERROR, ProcessingError (AttributeError ''get_email_threads''))],
              errors := errors s + 1\<rparr>) \<and>
         main_from lib ih lm (Inr cfg) None write_error file =
           (1, \<lparr>processed_emails = 0, updated_rows = 0, errors = 1,
                log = [(INFO, LoadedRows (length (df_rows file))),
                       (INFO, StartProcessing), (INFO, ProcessingAsUser),
                       (ERROR, ProcessingError (AttributeError ''get_email_threads'')),
                       (ERROR, UnexpectedError (AttributeError ''get_email_threads''))],
                data = Some file, disk = file, save_calls = 0, marked_read = []\<rparr>) \<and>
         fst (main_from lib ih lm startup read_error write_error file) = 1 \<and>
         save_calls (snd (main_from lib ih lm startup read_error write_error file)) = 0 \<and>
         disk (snd (main_from lib ih lm startup read_error write_error file)) = file"
proof -
  have n1: "''get_email_threads'' \<notin> set IMAPHandler_attrs"
    and n2: "''mark_as_read'' \<notin> set IMAPHandler_attrs"
    by (simp_all add: IMAPHandler_attrs_def)
  have p: "process_emails lib ih lm cfg s =
           (Inl (AttributeError ''get_email_threads''),
            s\<lparr>log := log s @ [(INFO, StartProcessing), (INFO, ProcessingAsUser),
                               (ERROR, ProcessingError (AttributeError ''get_email_threads''))],
              errors := errors s + 1\<rparr>)" for s
    using n1 assms by (simp add: process_emails_def process_emails_try_def)
  have m: "main_from lib ih lm (Inr cfg) None write_error file =
           (1, \<lparr>processed_emails = 0, updated_rows = 0, errors = 1,
                log = [(INFO, LoadedRows (length (df_rows file))),
                       (INFO, StartProcessing), (INFO, ProcessingAsUser),
                       (ERROR, ProcessingError (AttributeError ''get_email_threads'')),
                       (ERROR, UnexpectedError (AttributeError ''get_email_threads''))],
                data = Some file, disk = file, save_calls = 0, marked_read = []\<rparr>)"
    by (simp add: main_from_def load_data_def p initial_state_def)
  obtain code s' where r: "main_from lib ih lm startup read_error write_error file = (code, s')"
    by (cases "main_from lib ih lm startup read_error write_error file")
  have i0: "disk (initial_state file) = file" "save_calls (initial_state file) = 0"
    by (simp_all add: initial_state_def)
  have "code = 1 \<and> save_calls s' = 0 \<and> disk s' = file"
  proof (cases startup)
    case (Inl e)
    with r have "main_except e (initial_state file) = (code, s')" by (simp add: main_from_def)
    from main_except_frame[OF this] i0 show ?thesis by simp
  next
    case (Inr c)
    show ?thesis
    proof (cases read_error)
      case (Some e)
      with r Inr have "main_except e ((initial_state file)\<lparr>log :=
          log (initial_state file) @ [(ERROR, LoadFailed e)]\<rparr>) = (code, s')"
        by (simp add: main_from_def load_data_def)
      from main_except_frame[OF this] i0 show ?thesis by simp
    next
      case None
      have "process_emails lib ih lm c (snd (load_data None (initial_state file))) =
           (Inl (AttributeError ''get_email_threads''),
            (snd (load_data None (initial_state file)))\<lparr>log := log (snd (load_data None (initial_state file))) @ [(INFO, StartProcessing), (INFO, ProcessingAsUser),
                               (ERROR, ProcessingError (AttributeError ''get_email_threads''))],
              errors := errors (snd (load_data None (initial_state file))) + 1\<rparr>)"
        using n1 assms by (simp add: process_emails_def process_emails_try_def)
      with r Inr None show ?thesis
        by (auto simp: main_from_def load_data_def initial_state_def)
    qed
  qed
  with n1 n2 p m r show ?thesis by simp
qed

theorem process_emails_raises_on_IMAPHandler_witness:
  "ih_attrs ex_IMAPHandler = IMAPHandler_attrs \<and>
   process_emails ex_lib ex_IMAPHandler ex_lm ex_cfg ex_state =
     (Inl (AttributeError ''get_email_threads''),
      ex_state\<lparr>log := [(INFO, StartProcessing), (INFO, ProcessingAsUser),
                        (ERROR, ProcessingError (AttributeError ''get_email_threads''))],
                errors := 1\<rparr>) \<and>
   fst (main_from ex_lib ex_IMAPHandler ex_lm (Inr ex_cfg) None None ex_df) = 1 \<and>
   save_calls (snd (main_from ex_lib ex_IMAPHandler ex_lm (Inr ex_cfg) None None ex_df)) = 0 \<and>
   disk (snd (main_from ex_lib ex_IMAPHandler ex_lm (Inr ex_cfg) None None ex_df)) = ex_df"
proof -
  have a: "ih_attrs ex_IMAPHandler = IMAPHandler_attrs" by (simp add: ex_IMAPHandler_def)
  have z: "log ex_state = []" "errors ex_state = 0" by (simp_all add: ex_state_def)
  from process_emails_raises_on_IMAPHandler[OF a, where lib = ex_lib and lm = ex_lm
      and cfg = ex_cfg and s = ex_state and write_error = None and ?file = ex_df
      and startup = "Inr ex_cfg" and read_error = None] a z
  show ?thesis by simp
qed

section \<open>Facts about the counter of processed emails\<close>

lemma process_message_counter:
  assumes "process_message lib ih lm cfg thread message s = (r, s')"
  shows "processed_emails s' + int (length (marked_read s)) =
         processed_emails s + int (length (marked_read s'))"
proof -
  have u: "processed_emails s1 = processed_emails s \<and> marked_read s1 = marked_read s"
    if "update_data lib cfg sender thread an s = (r1, s1)" for sender an r1 s1
    using update_data_frame[OF that] by simp
  from assms show ?thesis
    by (auto simp: process_message_def mark_as_read_def
        split: if_splits option.splits sum.splits prod.splits dest!: u)
qed

lemma process_messages_counter:
  "process_messages lib ih lm cfg thread messages s = (r, s') \<Longrightarrow>
     processed_emails s' + int (length (marked_read s)) =
     processed_emails s + int (length (marked_read s'))"
proof (induction messages arbitrary: s)
  case Nil
  then show ?case by simp
next
  case (Cons m ms)
  obtain r1 s1 where p: "process_message lib ih lm cfg thread m s = (r1, s1)"
    by (cases "process_message lib ih lm cfg thread m s")
  show ?case
  proof (cases r1)
    case (Inl e)
    with Cons.prems p process_message_counter[OF p] show ?thesis by simp
  next
    case (Inr u)
    with Cons.prems p have "process_messages lib ih lm cfg thread ms s1 = (r, s')" by simp
    from Cons.IH[OF this] process_message_counter[OF p] show ?thesis by simp
  qed
qed

lemma process_threads_counter:
  "process_threads lib ih lm cfg threads s = (r, s') \<Longrightarrow>
     processed_emails s' + int (length (marked_read s)) =
     processed_emails s + int (length (marked_read s'))"
proof (induction threads arbitrary: s)
  case Nil
  then show ?case by simp
next
  case (Cons t ts)
  show ?case
  proof (cases "t_messages t")
    case None
    with Cons.prems show ?thesis by simp
  next
    case (Some ms)
    obtain r1 s1 where p: "process_messages lib ih lm cfg t ms s = (r1, s1)"
      by (cases "process_messages lib ih lm cfg t ms s")
    show ?thesis
    proof (cases r1)
      case (Inl e)
      with Cons.prems Some p process_messages_counter[OF p] show ?thesis by simp
    next
      case (Inr u)
      with Cons.prems Some p have "process_threads lib ih lm cfg ts s1 = (r, s')" by simp
      from Cons.IH[OF this] process_messages_counter[OF p] show ?thesis by simp
    qed
  qed
qed

lemma process_emails_counter:
  assumes "process_emails lib ih lm cfg s = (r, s')"
  shows "processed_emails s' + int (length (marked_read s)) =
         processed_emails s + int (length (marked_read s'))"
proof -
  let ?s0 = "s\<lparr>log := log s @ [(INFO, StartProcessing), (INFO, ProcessingAsUser)]\<rparr>"
  obtain r1 s1 where t: "process_emails_try lib ih lm cfg ?s0 = (r1, s1)"
    by (cases "process_emails_try lib ih lm cfg ?s0")
  have "processed_emails s1 + int (length (marked_read ?s0)) =
        processed_emails ?s0 + int (length (marked_read s1))"
    using t
    by (auto simp: process_emails_try_def split: if_splits sum.splits
        dest!: process_threads_counter)
  with assms t show ?thesis
    by (auto simp: process_emails_def split: sum.splits)
qed

lemma fetch_sent_emails_answers:
  assumes "connection = Some conn" and "imap_host icfg = Some host"
      and "conn_select conn (sent_folder lib host) = None"
      and "conn_search conn (sent_folder lib host) ''ALL'' = Inr (''OK'', ids)"
      and "\<forall>email_id \<in> set ids. \<not> fetch_raises conn (sent_folder lib host) email_id"
  shows "length (fst (fetch_sent_emails lib icfg connection s)) =
           length (filter (fetch_appends conn (sent_folder lib host)) ids) \<and>
         processed_emails (snd (fetch_sent_emails lib icfg connection s)) =
           processed_emails s + int (length (filter (fetch_appends conn (sent_folder lib host)) ids)) \<and>
         marked_read (snd (fetch_sent_emails lib icfg connection s)) = marked_read s"
proof -
  from fetch_loop_answers[OF assms(5), of "[]" s] obtain xs s1 where
    l: "fetch_loop conn (sent_folder lib host) ids [] s = (Inr xs, s1)"
    and n: "length xs = length (filter (fetch_appends conn (sent_folder lib host)) ids)"
    and p: "processed_emails s1 = processed_emails s + int (length xs)"
    and m: "marked_read s1 = marked_read s"
    by auto
  from assms(1-4) l have
    "fetch_sent_emails lib icfg connection s =
       (xs, s1\<lparr>log := log s1 @ [(INFO, Fetched (length xs))]\<rparr>)"
    by (simp add: fetch_sent_emails_def fetch_sent_emails_try_def)
  with n p m show ?thesis by simp
qed

lemma fetch_sent_emails_raises:
  assumes "connection = Some conn" and "imap_host icfg = Some host"
      and "conn_select conn (sent_folder lib host) = None"
      and "conn_search conn (sent_folder lib host) ''ALL'' = Inr (''OK'', good @ bad # rest)"
      and "\<forall>email_id \<in> set good. \<not> fetch_raises conn (sent_folder lib host) email_id"
      and "fetch_raises conn (sent_folder lib host) bad"
  shows "fst (fetch_sent_emails lib icfg connection s) = [] \<and>
         processed_emails (snd (fetch_sent_emails lib icfg connection s)) =
           processed_emails s +
           int (length (filter (fetch_appends conn (sent_folder lib host)) good))"
proof -
  from fetch_loop_raises[OF assms(5,6), of rest "[]" s] obtain e s1 where
    l: "fetch_loop conn (sent_folder lib host) (good @ bad # rest) [] s = (Inl e, s1)"
    and p: "processed_emails s1 =
              processed_emails s +
              int (length (filter (fetch_appends conn (sent_folder lib host)) good))"
    by auto
  from assms(1-4) l have
    "fetch_sent_emails lib icfg connection s =
       ([], s1\<lparr>log := log s1 @ [(ERROR, FetchError e)], errors := errors s1 + 1\<rparr>)"
    by (simp add: fetch_sent_emails_def fetch_sent_emails_try_def)
  with p show ?thesis by simp
qed

lemma fetch_replies_answers:
  assumes "connection = Some conn" and "imap_folder icfg = Some folder"
      and "conn_select conn folder = None" and "sent_email = Some sent"
      and "conn_search conn folder (references_criterion (e_message_id sent)) = Inr (''OK'', ids)"
      and "\<forall>email_id \<in> set ids. \<not> fetch_raises conn folder email_id"
  shows "length (fst (fetch_replies icfg connection sent_email s)) =
           length (filter (fetch_appends conn folder) ids) \<and>
         processed_emails (snd (fetch_replies icfg connection sent_email s)) =
           processed_emails s + int (length (filter (fetch_appends conn folder) ids))"
proof -
  from fetch_loop_answers[OF assms(6), of "[]" s] obtain xs s1 where
    l: "fetch_loop conn folder ids [] s = (Inr xs, s1)"
    and n: "length xs = length (filter (fetch_appends conn folder) ids)"
    and p: "processed_emails s1 = processed_emails s + int (length xs)"
    by auto
  from assms(1-5) l have
    "fetch_replies icfg connection sent_email s =
       (xs, s1\<lparr>log := log s1 @ [(INFO, Fetched (length xs))]\<rparr>)"
    by (simp add: fetch_replies_def fetch_replies_try_def)
  with n p show ?thesis by simp
qed

lemma fetch_replies_raises:
  assumes "connection = Some conn" and "imap_folder icfg = Some folder"
      and "conn_select conn folder = None" and "sent_email = Some sent"
      and "conn_search conn folder (references_criterion (e_message_id sent)) =
             Inr (''OK'', good @ bad # rest)"
      and "\<forall>email_id \<in> set good. \<not> fetch_raises conn folder email_id"
      and "fetch_raises conn folder bad"
  shows "fst (fetch_replies icfg connection sent_email s) = [] \<and>
         processed_emails (snd (fetch_replies icfg connection sent_email s)) =
           processed_emails s + int (length (filter (fetch_appends conn folder) good))"
proof -
  from fetch_loop_raises[OF assms(6,7), of rest "[]" s] obtain e s1 where
    l: "fetch_loop conn folder (good @ bad # rest) [] s = (Inl e, s1)"
    and p: "processed_emails s1 =
              processed_emails s + int (length (filter (fetch_appends conn folder) good))"
    by auto
  from assms(1-5) l have
    "fetch_replies icfg connection sent_email s =
       ([], s1\<lparr>log := log s1 @ [(ERROR, FetchError e)], errors := errors s1 + 1\<rparr>)"
    by (simp add: fetch_replies_def fetch_replies_try_def)
  with p show ?thesis by simp
qed

text \<open>
  C10. \<open>fetch_sent_emails\<close> and \<open>fetch_replies\<close> add one to \<open>processed_emails\<close> for
  every id whose message is fetched and appended, and they have no access to the analysis
  client. When no pass of the loop raises, the list returned has one entry for each such
  id and the counter has grown by their number; when a later pass raises, the list
  returned is empty and the counter keeps what the earlier passes added. A run of
  \<open>process_emails\<close> after \<open>fetch_sent_emails\<close> adds, on the same counter, one for every
  message it flags read: the counter then holds the messages fetched plus the messages
  processed, not the messages processed.
\<close>

theorem fetched_messages_count_as_processed:
  "(\<forall>conn host ids.
      connection = Some conn \<and> imap_host icfg = Some host \<and>
      conn_select conn (sent_folder lib host) = None \<and>
      conn_search conn (sent_folder lib host) ''ALL'' = Inr (''OK'', ids) \<and>
      (\<forall>email_id \<in> set ids. \<not> fetch_raises conn (sent_folder lib host) email_id) \<longrightarrow>
      length (fst (fetch_sent_emails lib icfg connection s)) =
        length (filter (fetch_appends conn (sent_folder lib host)) ids) \<and>
      processed_emails (snd (fetch_sent_emails lib icfg connection s)) =
        processed_emails s +
        int (length (filter (fetch_appends conn (sent_folder lib host)) ids)) \<and>
      (\<forall>r s'. process_emails lib ih lm cfg (snd (fetch_sent_emails lib icfg connection s)) =
                (r, s') \<longrightarrow>
         processed_emails s' =
           processed_emails s +
           int (length (filter (fetch_appends conn (sent_folder lib host)) ids)) +
           (int (length (marked_read s')) - int (length (marked_read s))))) \<and>
   (\<forall>conn host good bad rest.
      connection = Some conn \<and> imap_host icfg = Some host \<and>
      conn_select conn (sent_folder lib host) = None \<and>
      conn_search conn (sent_folder lib host) ''ALL'' = Inr (''OK'', good @ bad # rest) \<and>
      (\<forall>email_id \<in> set good. \<not> fetch_raises conn (sent_folder lib host) email_id) \<and>
      fetch_raises conn (sent_folder lib host) bad \<longrightarrow>
      fst (fetch_sent_emails lib icfg connection s) = [] \<and>
      processed_emails (snd (fetch_sent_emails lib icfg connection s)) =
        processed_emails s +
        int (length (filter (fetch_appends conn (sent_folder lib host)) good))) \<and>
   (\<forall>conn folder sent ids.
      connection = Some conn \<and> imap_folder icfg = Some folder \<and>
      conn_select conn folder = None \<and> sent_email = Some sent \<and>
      conn_search conn folder (references_criterion (e_message_id sent)) = Inr (''OK'', ids) \<and>
      (\<forall>email_id \<in> set ids. \<not> fetch_raises conn folder email_id) \<longrightarrow>
      length (fst (fetch_replies icfg connection sent_email s)) =
        length (filter (fetch_appends conn folder) ids) \<and>
      processed_emails (snd (fetch_replies icfg connection sent_email s)) =
        processed_emails s + int (length (filter (fetch_appends conn folder) ids))) \<and>
   (\<forall>conn folder sent good bad rest.
      connection = Some conn \<and> imap_folder icfg = Some folder \<and>
      conn_select conn folder = None \<and> sent_email = Some sent \<and>
      conn_search conn folder (references_criterion (e_message_id sent)) =
        Inr (''OK'', good @ bad # rest) \<and>
      (\<forall>email_id \<in> set good. \<not> fetch_raises conn folder email_id) \<and>
      fetch_raises conn folder bad \<longrightarrow>
      fst (fetch_replies icfg connection sent_email s) = [] \<and>
      processed_emails (snd (fetch_replies icfg connection sent_email s)) =
        processed_emails s + int (length (filter (fetch_appends conn folder) good)))"
proof (intro conjI allI impI)
  fix conn host ids
  assume h: "connection = Some conn \<and> imap_host icfg = Some host \<and>
      conn_select conn (sent_folder lib host) = None \<and>
      conn_search conn (sent_folder lib host) ''ALL'' = Inr (''OK'', ids) \<and>
      (\<forall>email_id \<in> set ids. \<not> fetch_raises conn (sent_folder lib host) email_id)"
  have f: "length (fst (fetch_sent_emails lib icfg connection s)) =
           length (filter (fetch_appends conn (sent_folder lib host)) ids) \<and>
         processed_emails (snd (fetch_sent_emails lib icfg connection s)) =
           processed_emails s + int (length (filter (fetch_appends conn (sent_folder lib host)) ids)) \<and>
         marked_read (snd (fetch_sent_emails lib icfg connection s)) = marked_read s"
    by (rule fetch_sent_emails_answers[OF
        h[THEN conjunct1]
        h[THEN conjunct2, THEN conjunct1]
        h[THEN conjunct2, THEN conjunct2, THEN conjunct1]
        h[THEN conjunct2, THEN conjunct2, THEN conjunct2, THEN conjunct1]
        h[THEN conjunct2, THEN conjunct2, THEN conjunct2, THEN conjunct2]])
  from f show "length (fst (fetch_sent_emails lib icfg connection s)) =
        length (filter (fetch_appends conn (sent_folder lib host)) ids)"
    by simp
  from f show "processed_emails (snd (fetch_sent_emails lib icfg connection s)) =
        processed_emails s +
        int (length (filter (fetch_appends conn (sent_folder lib host)) ids))"
    by simp
  fix r s'
  assume "process_emails lib ih lm cfg (snd (fetch_sent_emails lib icfg connection s)) = (r, s')"
  from process_emails_counter[OF this] f
  show "processed_emails s' =
           processed_emails s +
           int (length (filter (fetch_appends conn (sent_folder lib host)) ids)) +
           (int (length (marked_read s')) - int (length (marked_read s)))"
    by simp
next
  fix conn host good bad rest
  assume h: "connection = Some conn \<and> imap_host icfg = Some host \<and>
      conn_select conn (sent_folder lib host) = None \<and>
      conn_search conn (sent_folder lib host) ''ALL'' = Inr (''OK'', good @ bad # rest) \<and>
      (\<forall>email_id \<in> set good. \<not> fetch_raises conn (sent_folder lib host) email_id) \<and>
      fetch_raises conn (sent_folder lib host) bad"
  have f: "fst (fetch_sent_emails lib icfg connection s) = [] \<and>
         processed_emails (snd (fetch_sent_emails lib icfg connection s)) =
           processed_emails s +
           int (length (filter (fetch_appends conn (sent_folder lib host)) good))"
    by (rule fetch_sent_emails_raises[OF
        h[THEN conjunct1]
        h[THEN conjunct2, THEN conjunct1]
        h[THEN conjunct2, THEN conjunct2, THEN conjunct1]
        h[THEN conjunct2, THEN conjunct2, THEN conjunct2, THEN conjunct1]
        h[THEN conjunct2, THEN conjunct2, THEN conjunct2, THEN conjunct2, THEN conjunct1]
        h[THEN conjunct2, THEN conjunct2, THEN conjunct2, THEN conjunct2, THEN conjunct2]])
  from f show "fst (fetch_sent_emails lib icfg connection s) = []" by simp
  from f show "processed_emails (snd (fetch_sent_emails lib icfg connection s)) =
        processed_emails s +
        int (length (filter (fetch_appends conn (sent_folder lib host)) good))"
    by simp
next
  fix conn folder sent ids
  assume h: "connection = Some conn \<and> imap_folder icfg = Some folder \<and>
      conn_select conn folder = None \<and> sent_email = Some sent \<and>
      conn_search conn folder (references_criterion (e_message_id sent)) = Inr (''OK'', ids) \<and>
      (\<forall>email_id \<in> set ids. \<not> fetch_raises conn folder email_id)"
  have f: "length (fst (fetch_replies icfg connection sent_email s)) =
           length (filter (fetch_appends conn folder) ids) \<and>
         processed_emails (snd (fetch_replies icfg connection sent_email s)) =
           processed_emails s + int (length (filter (fetch_appends conn folder) ids))"
    by (rule fetch_replies_answers[OF
        h[THEN conjunct1]
        h[THEN conjunct2, THEN conjunct1]
        h[THEN conjunct2, THEN conjunct2, THEN conjunct1]
        h[THEN conjunct2, THEN conjunct2, THEN conjunct2, THEN conjunct1]
        h[THEN conjunct2, THEN conjunct2, THEN conjunct2, THEN conjunct2, THEN conjunct1]
        h[THEN conjunct2, THEN conjunct2, THEN conjunct2, THEN conjunct2, THEN conjunct2]])
  from f show "length (fst (fetch_replies icfg connection sent_email s)) =
        length (filter (fetch_appends conn folder) ids)"
    by simp
  from f show "processed_emails (snd (fetch_replies icfg connection sent_email s)) =
        processed_emails s + int (length (filter (fetch_appends conn folder) ids))"
    by simp
next
  fix conn folder sent good bad rest
  assume h: "connection = Some conn \<and> imap_folder icfg = Some folder \<and>
      conn_select conn folder = None \<and> sent_email = Some sent \<and>
      conn_search conn folder (references_criterion (e_message_id sent)) =
        Inr (''OK'', good @ bad # rest) \<and>
      (\<forall>email_id \<in> set good. \<not> fetch_raises conn folder email_id) \<and>
      fetch_raises conn folder bad"
  have f: "fst (fetch_replies icfg connection sent_email s) = [] \<and>
         processed_emails (snd (fetch_replies icfg connection sent_email s)) =
           processed_emails s + int (length (filter (fetch_appends conn folder) good))"
    by (rule fetch_replies_raises[OF
        h[THEN conjunct1]
        h[THEN conjunct2, THEN conjunct1]
        h[THEN conjunct2, THEN conjunct2, THEN conjunct1]
        h[THEN conjunct2, THEN conjunct2, THEN conjunct2, THEN conjunct1]
        h[THEN conjunct2, THEN conjunct2, THEN conjunct2, THEN conjunct2, THEN conjunct1]
        h[THEN conjunct2, THEN conjunct2, THEN conjunct2, THEN conjunct2, THEN conjunct2, THEN conjunct1]
        h[THEN conjunct2, THEN conjunct2, THEN conjunct2, THEN conjunct2, THEN conjunct2, THEN conjunct2]])
  from f show "fst (fetch_replies icfg connection sent_email s) = []" by simp
  from f show "processed_emails (snd (fetch_replies icfg connection sent_email s)) =
        processed_emails s + int (length (filter (fetch_appends conn folder) good))"
    by simp
qed

theorem fetched_messages_count_as_processed_witness:
  "sent_folder ex_lib ''imap.zoho.com'' = ''Sent'' \<and>
   filter (fetch_appends ex_conn ''Sent'') [''1'', ''2'', ''3''] = [''1'', ''3''] \<and>
   length (fst (fetch_sent_emails ex_lib ex_icfg (Some ex_conn) ex_state)) = 2 \<and>
   processed_emails (snd (fetch_sent_emails ex_lib ex_icfg (Some ex_conn) ex_state)) = 2 \<and>
   marked_read (snd (process_emails ex_lib ex_ih ex_lm ex_cfg
      (snd (fetch_sent_emails ex_lib ex_icfg (Some ex_conn) ex_state)))) = [''<b@x.org>''] \<and>
   processed_emails (snd (process_emails ex_lib ex_ih ex_lm ex_cfg
      (snd (fetch_sent_emails ex_lib ex_icfg (Some ex_conn) ex_state)))) = 3 \<and>
   fetch_raises ex_conn ''Drafts'' ''9'' \<and>
   fst (fetch_replies (ex_icfg\<lparr>imap_folder := Some ''Drafts''\<rparr>) (Some ex_conn)
          (Some (ex_parsed ''7'')) ex_state) = [] \<and>
   processed_emails (snd (fetch_replies (ex_icfg\<lparr>imap_folder := Some ''Drafts''\<rparr>)
          (Some ex_conn) (Some (ex_parsed ''7'')) ex_state)) = 1"
proof -
  let ?fetched = "snd (fetch_sent_emails ex_lib ex_icfg (Some ex_conn) ex_state)"
  let ?run = "process_emails ex_lib ex_ih ex_lm ex_cfg ?fetched"
  let ?drafts = "ex_icfg\<lparr>imap_folder := Some ''Drafts''\<rparr>"
  have sf: "sent_folder ex_lib ''imap.zoho.com'' = ''Sent''" by code_simp
  have z: "processed_emails ex_state = 0" "marked_read ex_state = []"
    by (simp_all add: ex_state_def)
  \<comment> \<open>the sent folder: three ids, none raising, two appended\<close>
  have a1: "imap_host ex_icfg = Some ''imap.zoho.com''" by (simp add: ex_icfg_def)
  have a2: "conn_select ex_conn (sent_folder ex_lib ''imap.zoho.com'') = None"
    by (simp add: ex_conn_def)
  have a3: "conn_search ex_conn (sent_folder ex_lib ''imap.zoho.com'') ''ALL'' =
        Inr (''OK'', [''1'', ''2'', ''3''])"
    unfolding sf by (simp add: ex_conn_def)
  have a4: "\<forall>email_id \<in> set [''1'', ''2'', ''3''].
         \<not> fetch_raises ex_conn (sent_folder ex_lib ''imap.zoho.com'') email_id"
    unfolding sf by code_simp
  have a: "Some ex_conn = Some ex_conn \<and> imap_host ex_icfg = Some ''imap.zoho.com'' \<and>
      conn_select ex_conn (sent_folder ex_lib ''imap.zoho.com'') = None \<and>
      conn_search ex_conn (sent_folder ex_lib ''imap.zoho.com'') ''ALL'' =
        Inr (''OK'', [''1'', ''2'', ''3'']) \<and>
      (\<forall>email_id \<in> set [''1'', ''2'', ''3''].
         \<not> fetch_raises ex_conn (sent_folder ex_lib ''imap.zoho.com'') email_id)"
    using a1 a2 a3 a4 by blast
  have n: "filter (fetch_appends ex_conn ''Sent'') [''1'', ''2'', ''3''] = [''1'', ''3'']"
    by code_simp
  note sent = fetched_messages_count_as_processed[where lib = ex_lib and icfg = ex_icfg
      and connection = "Some ex_conn" and s = ex_state and ih = ex_ih and lm = ex_lm
      and cfg = ex_cfg, THEN conjunct1, rule_format, OF a]
  from sent[unfolded sf n] z
  have l: "length (fst (fetch_sent_emails ex_lib ex_icfg (Some ex_conn) ex_state)) = 2"
    and p: "processed_emails ?fetched = 2"
    by simp_all
  have m: "marked_read (snd ?run) = [''<b@x.org>'']" by code_simp
  from sent[THEN conjunct2, THEN conjunct2, rule_format, of "fst ?run" "snd ?run",
      unfolded sf n] m z
  have q: "processed_emails (snd ?run) = 3"
    by simp
  \<comment> \<open>the folder Drafts: the first id is appended, the fetch of the second raises\<close>
  have r: "fetch_raises ex_conn ''Drafts'' ''9''" by code_simp
  have b1: "imap_folder ?drafts = Some ''Drafts''" by simp
  have b2: "conn_select ex_conn ''Drafts'' = None" by (simp add: ex_conn_def)
  have b3: "conn_search ex_conn ''Drafts'' (references_criterion (e_message_id (ex_parsed ''7''))) =
        Inr (''OK'', [''1''] @ ''9'' # [])"
    by (simp add: ex_conn_def)
  have b4: "\<forall>email_id \<in> set [''1'']. \<not> fetch_raises ex_conn ''Drafts'' email_id"
    by code_simp
  have b: "Some ex_conn = Some ex_conn \<and> imap_folder ?drafts = Some ''Drafts'' \<and>
      conn_select ex_conn ''Drafts'' = None \<and> Some (ex_parsed ''7'') = Some (ex_parsed ''7'') \<and>
      conn_search ex_conn ''Drafts'' (references_criterion (e_message_id (ex_parsed ''7''))) =
        Inr (''OK'', [''1''] @ ''9'' # []) \<and>
      (\<forall>email_id \<in> set [''1'']. \<not> fetch_raises ex_conn ''Drafts'' email_id) \<and>
      fetch_raises ex_conn ''Drafts'' ''9''"
    using r b1 b2 b3 b4 by blast
  have n2: "filter (fetch_appends ex_conn ''Drafts'') [''1''] = [''1'']" by code_simp
  note drafts = fetched_messages_count_as_processed[where lib = ex_lib and icfg = ?drafts
      and connection = "Some ex_conn" and s = ex_state
      and sent_email = "Some (ex_parsed ''7'')",
      THEN conjunct2, THEN conjunct2, THEN conjunct2, rule_format, OF b]
  from drafts[unfolded n2] z have d: "fst (fetch_replies ?drafts (Some ex_conn) (Some (ex_parsed ''7'')) ex_state) = []"
    "processed_emails (snd (fetch_replies ?drafts (Some ex_conn) (Some (ex_parsed ''7''))
        ex_state)) = 1"
    by simp_all
  from sf n l p m q r d show ?thesis by simp
qed

end
